theory Spec2Isabelle
  imports Complex_Main
begin

section \<open>Strings as the Python code uses them\<close>

text \<open>
  Process names, paths and evidence lines are Python \<open>str\<close> values. They are modelled as
  \<open>string\<close> (lists of 8-bit characters); a character outside ASCII is the sequence of
  its UTF-8 bytes. Every needle the code searches for is ASCII, so a search in the bytes
  finds what the search in the code points finds. \<open>str.lower()\<close> is modelled on the
  letters A to Z; all other characters are left as they are. Python lowers letters outside
  ASCII too (the Kelvin sign U+212A to \<open>k\<close>, U+0130 to \<open>i\<close> and U+0307): on a name or
  a path with such a letter \<open>lower\<close> is not what the code computes.
\<close>

definition win :: "string \<Rightarrow> string" where
  \<comment> \<open>Notation for literals only: every \<open>/\<close> of the argument stands for one backslash.
     No literal of the source contains a forward slash.\<close>
  "win s = map (\<lambda>c. if c = CHR ''/'' then CHR 0x5C else c) s"

definition lower_char :: "char \<Rightarrow> char" where
  "lower_char c =
     (case map_of (zip ''ABCDEFGHIJKLMNOPQRSTUVWXYZ'' ''abcdefghijklmnopqrstuvwxyz'') c of
        None \<Rightarrow> c
      | Some d \<Rightarrow> d)"

definition lower :: "string \<Rightarrow> string" where
  "lower s = map lower_char s"

fun starts_with :: "'a list \<Rightarrow> 'a list \<Rightarrow> bool" where
  "starts_with [] ys = True"
| "starts_with (x # xs) [] = False"
| "starts_with (x # xs) (y # ys) = (x = y \<and> starts_with xs ys)"

fun py_in :: "'a list \<Rightarrow> 'a list \<Rightarrow> bool" where
  \<comment> \<open>Python's \<open>needle in haystack\<close> on strings: a contiguous occurrence.\<close>
  "py_in n [] = (n = [])"
| "py_in n (y # ys) = (starts_with n (y # ys) \<or> py_in n ys)"

fun join :: "string \<Rightarrow> string list \<Rightarrow> string" where
  \<comment> \<open>\<open>sep.join(xs)\<close>\<close>
  "join sep [] = []"
| "join sep [x] = x"
| "join sep (x # y # ys) = x @ sep @ join sep (y # ys)"

definition digit_char :: "nat \<Rightarrow> char" where
  "digit_char d = ''0123456789'' ! (d mod 10)"

function show_nat :: "nat \<Rightarrow> string" where
  "show_nat n = (if n < 10 then [digit_char n] else show_nat (n div 10) @ [digit_char (n mod 10)])"
  by pat_completeness auto
termination
  by (relation "measure id") auto

definition show_int :: "int \<Rightarrow> string" where
  \<comment> \<open>\<open>str(i)\<close>, as an f-string formats an integer\<close>
  "show_int i = (if i < 0 then CHR ''-'' # show_nat (nat (- i)) else show_nat (nat i))"

section \<open>The fact model (enumerator.py)\<close>

record ProcessInfo =
  pid :: int
  name :: string
  path :: string
  parent_pid :: int
  is_signed :: bool
  user_account :: string
  is_hidden_window :: bool
  is_service :: bool
  loaded_dlls :: "string list"
  privileges :: "string list"
  timestamp :: string

record HookInfo =
  hook_id :: int
  hook_type :: string
  owner_pid :: int
  owner_process :: string
  module_path :: string
  hook_timestamp :: string

section \<open>The heuristic engine (heuristics.py)\<close>

datatype RiskLevel = LOW | MEDIUM | HIGH | UNKNOWN

record RiskRule =
  rule_id :: string
  rule_name :: string
  description :: string
  weight :: int
  triggered :: bool
  evidence :: string

record RiskAssessment =
  ra_pid :: int
  process_name :: string
  risk_score :: int
  risk_level :: RiskLevel
  triggered_rules :: "RiskRule list"
  explanation :: string
  ra_timestamp :: string

text \<open>
  \<open>self.rules\<close> is a dict built once by \<open>_initialize_rules\<close> from ten literal keys; no
  key is ever added or removed, and every lookup uses one of the ten literals. The keys
  are therefore a datatype and the dict a total function on it.
\<close>

datatype rule_key =
  unsigned_binary | hidden_window | unusual_path | elevated_privileges | suspicious_dll
  | orphan_process | temp_location | name_spoofing | service_anomaly | multiple_hooks

type_synonym rule_table = "rule_key \<Rightarrow> RiskRule"

record HeuristicEngine =
  sensitivity :: string
  rules :: rule_table

definition mk_rule :: "string \<Rightarrow> string \<Rightarrow> string \<Rightarrow> int \<Rightarrow> RiskRule" where
  \<comment> \<open>the dataclass constructor with its defaults \<open>triggered=False, evidence=""\<close>\<close>
  "mk_rule i n d w =
     \<lparr>rule_id = i, rule_name = n, description = d, weight = w, triggered = False,
      evidence = ''''\<rparr>"

fun initialize_rules :: rule_table where
  "initialize_rules unsigned_binary =
     mk_rule ''R001'' ''Unsigned Binary'' ''Executable lacks valid digital signature'' 25"
| "initialize_rules hidden_window =
     mk_rule ''R002'' ''Hidden Window'' ''Process has no visible windows (may be hiding)'' 20"
| "initialize_rules unusual_path =
     mk_rule ''R003'' ''Unusual Path'' ''Executable located in suspicious directory'' 30"
| "initialize_rules elevated_privileges =
     mk_rule ''R004'' ''Unexpected Elevation''
       ''Process has elevated privileges without clear reason'' 15"
| "initialize_rules suspicious_dll =
     mk_rule ''R005'' ''Suspicious DLL'' ''Process loaded unusual or injected DLLs'' 25"
| "initialize_rules orphan_process =
     mk_rule ''R006'' ''Orphan Process'' ''Parent process no longer exists'' 10"
| "initialize_rules temp_location =
     mk_rule ''R007'' ''Temp Directory Execution''
       ''Executable running from temporary directory'' 20"
| "initialize_rules name_spoofing =
     mk_rule ''R008'' ''Name Spoofing''
       ''Process name mimics system process but path differs'' 35"
| "initialize_rules service_anomaly =
     mk_rule ''R009'' ''Unknown Service'' ''Marked as service but not recognized'' 15"
| "initialize_rules multiple_hooks =
     mk_rule ''R010'' ''Multiple Hooks''
       ''Process has registered multiple keyboard hooks'' 20"

text \<open>
  \<open>int(rule.weight * 1.3)\<close> and \<open>int(rule.weight * 0.7)\<close> multiply in double precision
  and truncate toward zero. On the ten weights of the catalogue (10, 15, 20, 25, 30, 35)
  the doubles truncate to 13, 19, 26, 32, 39, 45 and to 7, 10, 14, 17, 21, 24, which is
  what the exact products in tenths give; \<open>scale_weight\<close> computes with the tenths.
\<close>

definition scale_weight :: "int \<Rightarrow> RiskRule \<Rightarrow> RiskRule" where
  "scale_weight tenths r = r\<lparr>weight := (weight r * tenths) div 10\<rparr>"

definition engine_init :: "string \<Rightarrow> HeuristicEngine" where
  \<comment> \<open>\<open>HeuristicEngine.__init__\<close>\<close>
  "engine_init sens =
     (if sens = ''high'' then
        \<lparr>sensitivity = sens, rules = (\<lambda>k. scale_weight 13 (initialize_rules k))\<rparr>
      else if sens = ''low'' then
        \<lparr>sensitivity = sens, rules = (\<lambda>k. scale_weight 7 (initialize_rules k))\<rparr>
      else \<lparr>sensitivity = sens, rules = initialize_rules\<rparr>)"

text \<open>
  The checks mutate the rule objects of the dict and append references to them to the
  list \<open>triggered\<close>. The state of an analysis is the rule table together with the list
  of keys whose rule objects have been appended; the rule objects of the result are read
  from the table when the analysis is over, as a reference would be. An assessment of the
  model holds the values the rule objects have at that moment. In the code it holds the
  objects themselves, which the next analysis on the same engine resets: the fields
  \<open>triggered\<close> and \<open>evidence\<close> of the rules of a stored assessment are as modelled
  only until then.
\<close>

type_synonym check_state = "rule_table \<times> rule_key list"

definition fire :: "rule_key \<Rightarrow> string \<Rightarrow> check_state \<Rightarrow> check_state" where
  \<comment> \<open>\<open>rule = self.rules[k]; rule.triggered = True; rule.evidence = ev;
      triggered.append(rule)\<close>\<close>
  "fire k ev st =
     (case st of (rs, trig) \<Rightarrow> (rs(k := (rs k)\<lparr>triggered := True, evidence := ev\<rparr>), trig @ [k]))"

definition check_unsigned_binary :: "ProcessInfo \<Rightarrow> check_state \<Rightarrow> check_state" where
  "check_unsigned_binary proc st =
     (if \<not> is_signed proc
      then fire unsigned_binary (''No valid signature found for '' @ path proc) st
      else st)"

definition check_hidden_window :: "ProcessInfo \<Rightarrow> check_state \<Rightarrow> check_state" where
  "check_hidden_window proc st =
     (if is_hidden_window proc \<and> \<not> is_service proc
      then fire hidden_window ''Process runs without visible windows'' st
      else st)"

definition suspicious_paths :: "string list" where
  "suspicious_paths = [win '':/users/'', win '':/temp/'', win '':/downloads/'',
     win '':/appdata/roaming/'']"

definition check_unusual_path :: "ProcessInfo \<Rightarrow> check_state \<Rightarrow> check_state" where
  "check_unusual_path proc st =
     (let path_lower = lower (path proc) in
      if py_in (win ''/windows/'') path_lower \<or> py_in (win ''/program files'') path_lower
      then st
      else if list_ex (\<lambda>sus_path. py_in sus_path path_lower) suspicious_paths
      then fire unusual_path (''Executing from '' @ path proc) st
      else st)"

definition system_elevated :: "string list" where
  "system_elevated = [''taskmgr.exe'', ''regedit.exe'', ''cmd.exe'', ''powershell.exe'']"

definition check_elevated_privileges :: "ProcessInfo \<Rightarrow> check_state \<Rightarrow> check_state" where
  "check_elevated_privileges proc st =
     (if List.member (privileges proc) ''ELEVATED'' \<and> \<not> is_service proc
      then (if \<not> List.member system_elevated (lower (name proc))
            then fire elevated_privileges
                   (''Process has elevated privileges: '' @ join '', '' (privileges proc)) st
            else st)
      else st)"

definition suspicious_dll_patterns :: "string list" where
  "suspicious_dll_patterns = [''hook'', ''inject'', ''keylog'', ''capture'', ''spy'',
     ''monitor'', ''intercept'', ''suspicious'']"

definition check_suspicious_dlls :: "ProcessInfo \<Rightarrow> check_state \<Rightarrow> check_state" where
  \<comment> \<open>the nested loops return at the first DLL that holds one of the patterns\<close>
  "check_suspicious_dlls proc st =
     (case find (\<lambda>dll. list_ex (\<lambda>pattern. py_in pattern (lower dll)) suspicious_dll_patterns)
             (loaded_dlls proc) of
        Some dll \<Rightarrow> fire suspicious_dll (''Loaded suspicious DLL: '' @ dll) st
      | None \<Rightarrow> st)"

definition check_orphan_process :: "ProcessInfo \<Rightarrow> check_state \<Rightarrow> check_state" where
  "check_orphan_process proc st =
     (if parent_pid proc > 0 \<and> parent_pid proc < 4 \<and> pid proc > 100
      then fire orphan_process
             (''Parent PID '' @ show_int (parent_pid proc) @ '' likely terminated'') st
      else st)"

definition temp_paths :: "string list" where
  "temp_paths = [win ''/temp/'', win ''/tmp/'', win ''/appdata/local/temp'']"

definition check_temp_location :: "ProcessInfo \<Rightarrow> check_state \<Rightarrow> check_state" where
  "check_temp_location proc st =
     (if list_ex (\<lambda>temp_path. py_in temp_path (lower (path proc))) temp_paths
      then fire temp_location (''Running from temp: '' @ path proc) st
      else st)"

definition system_procs :: "(string \<times> string) list" where
  "system_procs =
     [(''system'', win ''/windows/system32/ntoskrnl.exe''),
      (''svchost.exe'', win ''/windows/system32/svchost.exe''),
      (''explorer.exe'', win ''/windows/explorer.exe''),
      (''lsass.exe'', win ''/windows/system32/lsass.exe''),
      (''csrss.exe'', win ''/windows/system32/csrss.exe''),
      (''winlogon.exe'', win ''/windows/system32/winlogon.exe'')]"

definition check_name_spoofing :: "ProcessInfo \<Rightarrow> check_state \<Rightarrow> check_state" where
  "check_name_spoofing proc st =
     (case map_of system_procs (lower (name proc)) of
        Some expected_path \<Rightarrow>
          (if \<not> py_in expected_path (lower (path proc))
           then fire name_spoofing
                  (name proc @ '' running from unexpected path: '' @ path proc) st
           else st)
      | None \<Rightarrow> st)"

definition check_service_anomaly :: "ProcessInfo \<Rightarrow> check_state \<Rightarrow> check_state" where
  "check_service_anomaly proc st =
     (if is_service proc \<and> \<not> is_signed proc
      then fire service_anomaly (''Unsigned service: '' @ name proc) st
      else st)"

definition check_multiple_hooks :: "int \<Rightarrow> check_state \<Rightarrow> check_state" where
  "check_multiple_hooks hook_count st =
     (if hook_count > 2
      then fire multiple_hooks (''Process registered '' @ show_int hook_count @ '' hooks'') st
      else st)"

definition generate_explanation :: "RiskRule list \<Rightarrow> int \<Rightarrow> string" where
  "generate_explanation trig score =
     (if trig = [] then
        ''No suspicious indicators detected. Score: '' @ show_int score @ ''/100 (LOW risk)''
      else
        ''Score: '' @ show_int score @ ''/100. Triggered: ''
          @ join '', '' (map (\<lambda>r. rule_name r @ '' (+'' @ show_int (weight r) @ '')'') trig))"

definition reset_rules :: "rule_table \<Rightarrow> rule_table" where
  "reset_rules rs = (\<lambda>k. (rs k)\<lparr>triggered := False, evidence := ''''\<rparr>)"

definition run_checks :: "ProcessInfo \<Rightarrow> int \<Rightarrow> check_state \<Rightarrow> check_state" where
  "run_checks proc hook_count st =
     check_multiple_hooks hook_count
      (check_service_anomaly proc
        (check_name_spoofing proc
          (check_temp_location proc
            (check_orphan_process proc
              (check_suspicious_dlls proc
                (check_elevated_privileges proc
                  (check_unusual_path proc
                    (check_hidden_window proc
                      (check_unsigned_binary proc st)))))))))"

definition level_of_score :: "int \<Rightarrow> RiskLevel" where
  \<comment> \<open>the \<open>if/elif/else\<close> on the score inside \<open>HeuristicEngine.analyze_process\<close>\<close>
  "level_of_score score = (if score \<ge> 61 then HIGH else if score \<ge> 31 then MEDIUM else LOW)"

definition engine_analyze_process ::
  "HeuristicEngine \<Rightarrow> ProcessInfo \<Rightarrow> int \<Rightarrow> string \<Rightarrow> RiskAssessment \<times> HeuristicEngine" where
  \<comment> \<open>\<open>HeuristicEngine.analyze_process\<close> (the detector of keylogger_detector.py has a
     method of the same name, \<open>detector_analyze_process\<close> below); \<open>now\<close> is
     \<open>datetime.now().isoformat()\<close>. The engine is returned with its rule objects as the
     analysis has left them.\<close>
  "engine_analyze_process eng proc hook_count now =
     (case run_checks proc hook_count (reset_rules (rules eng), []) of
        (rs, trig) \<Rightarrow>
          (let trig_rules = map rs trig;
               score = sum_list (map weight trig_rules)
           in (\<lparr>ra_pid = pid proc, process_name = name proc, risk_score = score,
                risk_level = level_of_score score, triggered_rules = trig_rules,
                explanation = generate_explanation trig_rules score, ra_timestamp = now\<rparr>,
               eng\<lparr>rules := rs\<rparr>)))"

definition analyze_hook ::
  "HeuristicEngine \<Rightarrow> HookInfo \<Rightarrow> ProcessInfo \<Rightarrow> string \<Rightarrow> RiskAssessment \<times> HeuristicEngine" where
  "analyze_hook eng hook proc now = engine_analyze_process eng proc 1 now"

definition classify_risk :: "int \<Rightarrow> RiskLevel" where
  "classify_risk score =
     (if score \<ge> 61 then HIGH
      else if score \<ge> 31 then MEDIUM
      else if score \<ge> 0 then LOW
      else UNKNOWN)"


section \<open>The decision core (keylogger_detector.py)\<close>

record KeyloggerDetection =
  det_pid :: int
  det_name :: string
  det_path :: string
  confidence :: real
  det_evidence :: "string list"
  threat_score :: int
  network_activity :: bool
  file_logging :: bool
  memory_suspicious :: bool
  process_injection :: bool

text \<open>
  \<open>analyze_process\<close> receives a dict and reads it with \<open>proc.get(key, default)\<close>; a
  field of \<open>proc_dict\<close> is \<open>None\<close> when the key is absent.
\<close>

record proc_dict =
  d_pid :: "int option"
  d_name :: "string option"
  d_path :: "string option"
  d_is_signed :: "bool option"
  d_is_hidden :: "bool option"

definition dict_get :: "'a option \<Rightarrow> 'a \<Rightarrow> 'a" where
  "dict_get v dflt = (case v of None \<Rightarrow> dflt | Some x \<Rightarrow> x)"

text \<open>
  What the detector asks the operating system. Each psutil query either answers or
  raises one of the exceptions its caller catches (\<open>NoSuchProcess\<close>, \<open>AccessDenied\<close>),
  which is \<open>None\<close> here. \<open>file_publisher\<close> is the result of \<open>_get_publisher\<close>, which
  reads the version resource of the file (\<open>None\<close> when the file or the company name is
  missing; the name is stripped, so it may be empty).
\<close>

record connection =
  status :: string
  raddr :: "(string \<times> int) option"

record ancestry =
  self_name :: string
  parent :: "(string \<times> bool) option"

record os_env =
  file_publisher :: "string \<Rightarrow> string option"
  net_connections :: "int \<Rightarrow> connection list option"
  open_files :: "int \<Rightarrow> string list option"
  memory_rss :: "int \<Rightarrow> int option"
  process_ancestry :: "int \<Rightarrow> ancestry option"
  num_threads :: "int \<Rightarrow> int option"

definition trusted_publishers :: "string list" where
  "trusted_publishers =
    [''microsoft corporation'', ''microsoft windows'', ''microsoft'',
     ''apple inc.'', ''apple inc'', ''apple computer, inc.'', ''apple'',
     ''google llc'', ''google inc.'', ''google'',
     ''hp inc.'', ''hewlett-packard'', ''hp development company'', ''hp'',
     ''dell inc.'', ''dell computer corporation'', ''dell'',
     ''lenovo'', ''lenovo group limited'',
     ''asus'', ''asustek computer inc.'',
     ''logitech inc.'', ''logitech'',
     ''razer inc.'', ''razer'',
     ''corsair memory, inc.'', ''corsair'',
     ''steelseries'', ''steelseries aps'',
     ''nvidia corporation'', ''nvidia'',
     ''advanced micro devices, inc.'', ''amd'', ''ati technologies inc.'',
     ''intel corporation'', ''intel'',
     ''realtek semiconductor corp.'', ''realtek'',
     ''mozilla corporation'', ''mozilla foundation'', ''mozilla'',
     ''oracle corporation'', ''oracle america, inc.'', ''oracle'',
     ''adobe inc.'', ''adobe systems incorporated'', ''adobe'',
     ''vmware, inc.'', ''vmware'',
     ''citrix systems, inc.'', ''citrix'',
     ''symantec corporation'', ''norton'',
     ''mcafee, llc'', ''mcafee inc.'', ''mcafee'',
     ''trend micro inc.'', ''trend micro'',
     ''kaspersky lab'', ''kaspersky'',
     ''avast software'', ''avg technologies'',
     ''malwarebytes inc.'', ''malwarebytes'',
     ''zoom video communications, inc.'', ''zoom'',
     ''cisco systems, inc.'', ''cisco'',
     ''slack technologies, inc.'', ''slack'',
     ''discord inc.'', ''discord'',
     ''telegram messenger llp'', ''telegram'',
     ''whatsapp inc.'', ''whatsapp'',
     ''spotify ab'', ''spotify ltd'', ''spotify'',
     ''valve corporation'', ''valve'',
     ''epic games, inc.'', ''epic games'',
     ''dropbox, inc.'', ''dropbox'',
     ''box, inc.'', ''box'',
     ''jetbrains s.r.o.'', ''jetbrains'',
     ''github, inc.'', ''github'',
     ''atlassian pty ltd'', ''atlassian'']"

definition safe_process_names :: "string list" where
  "safe_process_names =
    [''system'', ''smss.exe'', ''csrss.exe'', ''wininit.exe'', ''services.exe'',
     ''lsass.exe'', ''svchost.exe'', ''explorer.exe'', ''taskhostw.exe'',
     ''dwm.exe'', ''winlogon.exe'', ''fontdrvhost.exe'', ''sihost.exe'',
     ''ctfmon.exe'', ''taskmgr.exe'', ''registry'', ''spoolsv.exe'',
     ''shellhost.exe'', ''lockapp.exe'', ''runtimebroker.exe'',
     ''applicationframehost.exe'', ''startmenuexperiencehost.exe'',
     ''searchhost.exe'', ''widgets.exe'', ''textinputhost.exe'',
     ''securityhealthsystray.exe'', ''securityhealthservice.exe'',
     ''winword.exe'', ''excel.exe'', ''powerpnt.exe'', ''outlook.exe'',
     ''onenote.exe'', ''teams.exe'', ''onedrive.exe'',
     ''chrome.exe'', ''firefox.exe'', ''msedge.exe'', ''iexplore.exe'',
     ''opera.exe'', ''brave.exe'',
     ''code.exe'', ''devenv.exe'', ''sublime_text.exe'', ''notepad.exe'',
     ''notepad++.exe'', ''pycharm64.exe'', ''idea64.exe'',
     ''discord.exe'', ''slack.exe'', ''zoom.exe'', ''spotify.exe'',
     ''vlc.exe'', ''steam.exe'']"

definition trusted_paths :: "string list" where
  "trusted_paths =
    [win ''c:/windows/system32'', win ''c:/windows/syswow64'', win ''c:/windows/explorer.exe'',
     win ''c:/program files/windowsapps'', win ''c:/windows/systemapps'',
     win ''c:/windows/winsxs'', win ''c:/program files/hp'',
     win ''c:/program files/nvidia corporation'', win ''c:/program files/logioptionsplus'',
     win ''c:/program files/logioptions'', win ''c:/program files/dell'',
     win ''c:/program files/intel'', win ''c:/program files/amd'',
     win ''c:/program files/realtek'']"

definition is_trusted_location :: "string \<Rightarrow> bool" where
  \<comment> \<open>The two Program Files literals of the first test are raw strings that end in two
     backslash characters.\<close>
  "is_trusted_location file_path =
     (let path_lower = lower file_path in
      if py_in (win ''c:/program files//'') path_lower
         \<or> py_in (win ''c:/program files (x86)//'') path_lower
      then (if list_ex (\<lambda>sus. py_in sus path_lower)
                 [win ''/temp/'', win ''/cache/'', win ''/downloads/'']
            then False else True)
      else list_ex (\<lambda>safe. py_in safe path_lower) trusted_paths)"

definition is_suspicious_location :: "string \<Rightarrow> bool" where
  "is_suspicious_location file_path =
     list_ex (\<lambda>sus. py_in sus (lower file_path))
       [win ''/temp/'', win ''/tmp/'', win ''appdata/local/temp'', win ''appdata/roaming/temp'',
        win ''/downloads/'', win ''/desktop/'', win ''/documents/random'']"

definition critical_processes :: "(string \<times> string) list" where
  "critical_processes =
    [(''svchost.exe'', win ''c:/windows/system32''),
     (''csrss.exe'', win ''c:/windows/system32''),
     (''lsass.exe'', win ''c:/windows/system32''),
     (''winlogon.exe'', win ''c:/windows/system32''),
     (''explorer.exe'', win ''c:/windows''),
     (''dwm.exe'', win ''c:/windows/system32'')]"

fun spoofing_loop :: "(string \<times> string) list \<Rightarrow> string \<Rightarrow> string \<Rightarrow> string \<Rightarrow> bool \<times> string" where
  \<comment> \<open>the loop \<open>for sys_name, required_path in critical_processes.items()\<close>\<close>
  "spoofing_loop [] nm name_lower path_lower = (False, '''')"
| "spoofing_loop ((sys_name, required_path) # rest) nm name_lower path_lower =
     (if name_lower = sys_name \<and> \<not> py_in required_path path_lower
      then (True, [CHR 0x27] @ nm @ [CHR 0x27] @ '' found in WRONG location (not ''
                    @ required_path @ '')'')
      else spoofing_loop rest nm name_lower path_lower)"

definition detect_name_spoofing :: "string \<Rightarrow> string \<Rightarrow> bool \<times> string" where
  "detect_name_spoofing nm pth = spoofing_loop critical_processes nm (lower nm) (lower pth)"

definition keylogger_keywords :: "string list" where
  "keylogger_keywords =
    [''keylog'', ''keystroke'', ''keycapture'', ''keyrecord'', ''pynput'', ''pyhook'',
     ''keyboard_hook'', ''kb_hook'', ''hook_keys'', ''capture_keys'', ''record_keys'']"

definition has_keylogger_keywords :: "string \<Rightarrow> string \<Rightarrow> string list" where
  "has_keylogger_keywords nm pth =
     filter (\<lambda>kw. py_in kw (lower (nm @ '' '' @ pth))) keylogger_keywords"

definition standard_ports :: "int list" where
  "standard_ports = [80, 443, 53, 22, 21, 25, 587]"

definition check_network_exfiltration :: "os_env \<Rightarrow> int \<Rightarrow> bool \<times> string" where
  "check_network_exfiltration env p =
     (case net_connections env p of
        None \<Rightarrow> (False, '''')
      | Some connections \<Rightarrow>
          (let suspicious_connections =
                 concat (map (\<lambda>conn.
                   (case raddr conn of
                      Some (ip, port) \<Rightarrow>
                        (if status conn = ''ESTABLISHED'' \<and> \<not> List.member standard_ports port
                         then [ip @ '':'' @ show_int port] else [])
                    | None \<Rightarrow> [])) connections)
           in if suspicious_connections \<noteq> []
              then (True, ''Outbound connections: '' @ join '', '' (take 3 suspicious_connections))
              else (False, '''')))"

definition check_file_logging :: "os_env \<Rightarrow> int \<Rightarrow> bool \<times> string" where
  "check_file_logging env p =
     (case open_files env p of
        None \<Rightarrow> (False, '''')
      | Some files \<Rightarrow>
          (case filter (\<lambda>f.
                   list_ex (\<lambda>pattern. py_in pattern (lower f))
                     [''log'', ''dump'', ''capture'', ''record'', ''output'', ''.txt'', ''.dat'',
                      ''.bin'', ''temp'', ''cache'']
                   \<and> list_ex (\<lambda>loc. py_in loc (lower f))
                        [win ''/temp/'', win ''/appdata/'', win ''/users/'']) files of
             [] \<Rightarrow> (False, '''')
           | f # _ \<Rightarrow> (True, ''Writing to: '' @ f)))"

text \<open>
  \<open>f"{rss / (1024*1024):.1f}"\<close>: dividing an integer below \<open>2^53\<close> by \<open>2^20\<close> is exact in
  double precision, and the format rounds the exact value to one decimal, a tie going to
  the even digit.
\<close>

definition fmt_mb :: "int \<Rightarrow> string" where
  "fmt_mb rss =
     (let q = (rss * 10) div 1048576;
          r = (rss * 10) mod 1048576;
          tenths = (if 2 * r > 1048576 \<or> (2 * r = 1048576 \<and> odd q) then q + 1 else q)
      in show_int (tenths div 10) @ ''.'' @ show_int (tenths mod 10))"

definition check_memory_patterns :: "os_env \<Rightarrow> int \<Rightarrow> bool \<times> string" where
  "check_memory_patterns env p =
     (case memory_rss env p of
        None \<Rightarrow> (False, '''')
      | Some rss \<Rightarrow>
          (if rss < 10 * 1024 * 1024
           then (True, ''Minimal memory footprint: '' @ fmt_mb rss @ ''MB'')
           else if rss > 500 * 1024 * 1024
           then (True, ''Excessive memory usage: '' @ fmt_mb rss @ ''MB'')
           else (False, '''')))"

definition arrow :: string where
  \<comment> \<open>the non-ASCII arrow of the message, as the bytes of the source file\<close>
  "arrow = [CHR 0xE2, CHR 0x80, CHR 0x9A, CHR 0xC3, CHR 0x9C, CHR 0xC3, CHR 0xAD]"

definition check_process_ancestry :: "os_env \<Rightarrow> int \<Rightarrow> bool \<times> string" where
  \<comment> \<open>\<open>parent a\<close> holds \<open>parent.name()\<close> and \<open>parent.is_running()\<close>, \<open>None\<close> when
     \<open>proc.parent()\<close> is \<open>None\<close>\<close>
  "check_process_ancestry env p =
     (case process_ancestry env p of
        None \<Rightarrow> (False, '''')
      | Some a \<Rightarrow>
          (case parent a of
             None \<Rightarrow> (False, '''')
           | Some (pname, running) \<Rightarrow>
               (let parent_name = lower pname; proc_name = lower (self_name a) in
                if List.member [''svchost.exe'', ''csrss.exe'', ''lsass.exe''] proc_name
                   \<and> \<not> List.member [''services.exe'', ''wininit.exe''] parent_name
                then (True, ''Suspicious parent: '' @ pname @ '' '' @ arrow @ '' '' @ self_name a)
                else if List.member
                          [''python.exe'', ''pythonw.exe'', ''powershell.exe'', ''cmd.exe'']
                          parent_name
                then (True, ''Spawned from: '' @ pname)
                else if \<not> running
                then (True, ''Orphaned process (parent terminated)'')
                else (False, ''''))))"

definition check_dll_injection_indicators :: "os_env \<Rightarrow> int \<Rightarrow> bool \<times> string" where
  "check_dll_injection_indicators env p =
     (case num_threads env p of
        None \<Rightarrow> (False, '''')
      | Some n \<Rightarrow>
          (if n < 3 then (True, ''Minimal threads: '' @ show_int n @ '' (likely injected)'')
           else (False, '''')))"

text \<open>
  The pictographs that open the evidence lines are not ASCII; they are written as the
  bytes of the source file.
\<close>

definition icon_network :: string where
  "icon_network = [CHR 0xEF, CHR 0xA3, CHR 0xBF, CHR 0xC3, CHR 0xBC, CHR 0xC3, CHR 0xA5,
     CHR 0xC3, CHR 0xAA]"

definition icon_file :: string where
  "icon_file = [CHR 0xEF, CHR 0xA3, CHR 0xBF, CHR 0xC3, CHR 0xBC, CHR 0xC3, CHR 0xAC,
     CHR 0xC3, CHR 0xB9]"

definition icon_memory :: string where
  "icon_memory = [CHR 0xEF, CHR 0xA3, CHR 0xBF, CHR 0xC3, CHR 0xBC, CHR 0xC3, CHR 0x9F,
     CHR 0xE2, CHR 0x80, CHR 0xA0]"

definition icon_ancestry :: string where
  "icon_ancestry = [CHR 0xEF, CHR 0xA3, CHR 0xBF, CHR 0xC3, CHR 0xBC, CHR 0xC3, CHR 0xAB,
     CHR 0xC2, CHR 0xAE, CHR 0xE2, CHR 0x80, CHR 0x9A, CHR 0xC3, CHR 0x84, CHR 0xC3, CHR 0xA7,
     CHR 0xEF, CHR 0xA3, CHR 0xBF, CHR 0xC3, CHR 0xBC, CHR 0xC3, CHR 0xAB, CHR 0xC2, CHR 0xB6]"

definition icon_injection :: string where
  "icon_injection = [CHR 0xEF, CHR 0xA3, CHR 0xBF, CHR 0xC3, CHR 0xBC, CHR 0xC3, CHR 0xAD,
     CHR 0xC3, CHR 0xA2]"

definition icon_alarm :: string where
  "icon_alarm = [CHR 0xEF, CHR 0xA3, CHR 0xBF, CHR 0xC3, CHR 0xBC, CHR 0xC3, CHR 0xB6,
     CHR 0xC2, CHR 0xAE]"

definition icon_warning :: string where
  "icon_warning = [CHR 0xE2, CHR 0x80, CHR 0x9A, CHR 0xC3, CHR 0xB6, CHR 0xE2, CHR 0x80,
     CHR 0xA0, CHR 0xC3, CHR 0x94, CHR 0xE2, CHR 0x88, CHR 0x8F, CHR 0xC3, CHR 0xA8]"

text \<open>
  The three local variables \<open>evidence\<close>, \<open>threat_score\<close> and \<open>confidence\<close> that the
  second stage of \<open>analyze_process\<close> accumulates. The confidence is a Python float; it
  is modelled as a real number, the sum of the decimal contributions. The code adds
  doubles, so its sum can differ from the exact one in the last place
  (\<open>0.2 + 0.15 + 0.35 + 0.3\<close> is \<open>0.9999999999999999\<close> there and 1 here), and so can the
  confidence it stores. What is used below holds of both: a sum of these positive
  constants is positive, and \<open>min(confidence, 1.0)\<close> is at most 1.
\<close>

record indicators =
  acc_evidence :: "string list"
  acc_threat_score :: int
  acc_confidence :: real

definition add_indicator :: "string \<Rightarrow> int \<Rightarrow> real \<Rightarrow> indicators \<Rightarrow> indicators" where
  \<comment> \<open>\<open>evidence.append(line); threat_score += pts; confidence += c\<close>\<close>
  "add_indicator line pts c a =
     \<lparr>acc_evidence = acc_evidence a @ [line], acc_threat_score = acc_threat_score a + pts,
      acc_confidence = acc_confidence a + c\<rparr>"

definition advanced_step :: "bool \<times> string \<Rightarrow> string \<Rightarrow> real \<Rightarrow> real \<times> string list \<Rightarrow> real \<times> string list" where
  \<comment> \<open>one \<open>if has_x: evidence.append(label + msg); confidence += c\<close> of
     \<open>_advanced_behavioral_analysis\<close>\<close>
  "advanced_step res label c acc =
     (if fst res then (fst acc + c, snd acc @ [label @ snd res]) else acc)"

definition advanced_behavioral_analysis :: "os_env \<Rightarrow> int \<Rightarrow> real \<times> string list" where
  "advanced_behavioral_analysis env p =
     advanced_step (check_dll_injection_indicators env p) (icon_injection @ '' DLL INJECTION: '')
         (3 / 10)
      (advanced_step (check_process_ancestry env p) (icon_ancestry @ '' PROCESS ANCESTRY: '')
         (25 / 100)
       (advanced_step (check_memory_patterns env p) (icon_memory @ '' MEMORY PATTERN: '')
          (2 / 10)
        (advanced_step (check_file_logging env p) (icon_file @ '' FILE LOGGING: '') (3 / 10)
         (advanced_step (check_network_exfiltration env p)
            (icon_network @ '' NETWORK EXFILTRATION: '') (35 / 100) (0, [])))))"

definition truthy :: "string option \<Rightarrow> bool" where
  \<comment> \<open>\<open>if publisher:\<close> on an \<open>Optional[str]\<close>: neither \<open>None\<close> nor the empty string\<close>
  "truthy s = (case s of None \<Rightarrow> False | Some x \<Rightarrow> x \<noteq> [])"

definition whitelisted :: "os_env \<Rightarrow> proc_dict \<Rightarrow> bool" where
  \<comment> \<open>the first stage of \<open>analyze_process\<close>: one of its three \<open>return None\<close> is taken\<close>
  "whitelisted env proc =
     (let nm = dict_get (d_name proc) '''';
          pth = dict_get (d_path proc) ''''
      in if List.member safe_process_names (lower nm) \<and> \<not> fst (detect_name_spoofing nm pth)
         then True
         else if is_trusted_location pth \<and> \<not> fst (detect_name_spoofing nm pth)
         then True
         else (case file_publisher env pth of
                 None \<Rightarrow> False
               | Some publisher \<Rightarrow>
                   publisher \<noteq> []
                   \<and> list_ex (\<lambda>trusted. py_in trusted (lower publisher)) trusted_publishers
                   \<and> \<not> fst (detect_name_spoofing nm pth)))"

definition accumulate :: "os_env \<Rightarrow> proc_dict \<Rightarrow> indicators" where
  \<comment> \<open>the second stage: indicators 1 to 6 and the advanced indicators, in the order of
     the code\<close>
  "accumulate env proc =
     (let nm = dict_get (d_name proc) '''';
          pth = dict_get (d_path proc) '''';
          p = dict_get (d_pid proc) 0;
          publisher = file_publisher env pth;
          a0 = \<lparr>acc_evidence = [], acc_threat_score = 0, acc_confidence = 0\<rparr>;
          a1 = (case detect_name_spoofing nm pth of
                  (is_spoofing, spoof_msg) \<Rightarrow>
                    if is_spoofing
                    then add_indicator (icon_alarm @ '' NAME SPOOFING: '' @ spoof_msg) 2 (4 / 10) a0
                    else a0);
          keywords = has_keylogger_keywords nm pth;
          a2 = (if keywords \<noteq> []
                then add_indicator (icon_alarm @ '' KEYLOGGER KEYWORDS: '' @ join '', '' keywords)
                       2 (5 / 10) a1
                else a1);
          a3 = (if \<not> dict_get (d_is_signed proc) False
                then add_indicator (icon_warning @ '' Unsigned binary with keyboard hook'')
                       1 (2 / 10) a2
                else a2);
          a4 = (if is_suspicious_location pth
                then add_indicator (icon_warning @ '' Suspicious location: '' @ pth)
                       1 (25 / 100) a3
                else a3);
          a5 = (if \<not> truthy publisher \<and> \<not> is_trusted_location pth
                then add_indicator
                       (icon_warning @ '' Unknown publisher in non-standard location'')
                       1 (15 / 100) a4
                else a4);
          a6 = (if dict_get (d_is_hidden proc) False
                then add_indicator (icon_warning @ '' Hidden process with keyboard hook'')
                       1 (2 / 10) a5
                else a5)
      in (case advanced_behavioral_analysis env p of
            (adv_confidence, adv_evidence) \<Rightarrow>
              if adv_confidence > 0
              then \<lparr>acc_evidence = acc_evidence a6 @ adv_evidence,
                    acc_threat_score = acc_threat_score a6 + int (length adv_evidence),
                    acc_confidence = acc_confidence a6 + adv_confidence\<rparr>
              else a6))"

definition mentions :: "string \<Rightarrow> string list \<Rightarrow> bool" where
  \<comment> \<open>\<open>any(word in e for e in evidence)\<close>\<close>
  "mentions word lines = list_ex (\<lambda>e. py_in word e) lines"

definition decide :: "proc_dict \<Rightarrow> indicators \<Rightarrow> KeyloggerDetection option" where
  \<comment> \<open>the flags and the final \<open>if threat_score >= 3\<close>\<close>
  "decide proc a =
     (let ev = acc_evidence a in
      if acc_threat_score a \<ge> 3
      then Some \<lparr>det_pid = dict_get (d_pid proc) 0,
                 det_name = dict_get (d_name proc) '''',
                 det_path = dict_get (d_path proc) '''',
                 confidence = min (acc_confidence a) 1,
                 det_evidence = ev,
                 threat_score = acc_threat_score a,
                 network_activity = mentions ''NETWORK'' ev,
                 file_logging = mentions ''FILE LOGGING'' ev,
                 memory_suspicious = mentions ''MEMORY'' ev,
                 process_injection = list_ex (\<lambda>e. py_in ''INJECTION'' e \<or> py_in ''ANCESTRY'' e) ev\<rparr>
      else None)"

definition detector_analyze_process :: "os_env \<Rightarrow> proc_dict \<Rightarrow> KeyloggerDetection option" where
  \<comment> \<open>\<open>ProductionKeyloggerDetector.analyze_process\<close>\<close>
  "detector_analyze_process env proc =
     (if whitelisted env proc then None else decide proc (accumulate env proc))"

definition accumulated_threat_score :: "os_env \<Rightarrow> proc_dict \<Rightarrow> int option" where
  \<comment> \<open>the value of the local variable \<open>threat_score\<close> when the analysis reaches its final
     test; \<open>None\<close> when the first stage has returned before the variable exists\<close>
  "accumulated_threat_score env proc =
     (if whitelisted env proc then None else Some (acc_threat_score (accumulate env proc)))"


section \<open>Hook discovery (enumerator.py)\<close>

definition common_hook_processes :: "string list" where
  "common_hook_processes = [''explorer.exe'', ''skype.exe'', ''discord.exe'', ''slack.exe'',
     ''teams.exe'', ''obs64.exe'', ''obs32.exe'']"

definition likely_has_hooks :: "ProcessInfo \<Rightarrow> bool" where
  "likely_has_hooks proc_info = List.member common_hook_processes (lower (name proc_info))"

definition has_hook_indicators :: "ProcessInfo \<Rightarrow> bool" where
  "has_hook_indicators proc_info =
     (list_ex (\<lambda>dll. py_in ''user32'' (lower dll)) (loaded_dlls proc_info)
      \<or> list_ex (\<lambda>dll. py_in ''hook'' (lower dll)) (loaded_dlls proc_info))"

fun detect_hooks_loop ::
  "(int \<Rightarrow> ProcessInfo option) \<Rightarrow> string \<Rightarrow> int list \<Rightarrow> int \<Rightarrow> HookInfo list \<Rightarrow> HookInfo list" where
  \<comment> \<open>the loop \<open>for pid in pids\<close> of \<open>WindowsAPIEnumerator.detect_hooks\<close>, with its two
     variables \<open>hook_id\<close> and \<open>hooks\<close>\<close>
  "detect_hooks_loop gpi now [] next_id hooks = hooks"
| "detect_hooks_loop gpi now (p # pids) next_id hooks =
     (case gpi p of
        None \<Rightarrow> detect_hooks_loop gpi now pids next_id hooks
      | Some proc_info \<Rightarrow>
          (if has_hook_indicators proc_info \<or> likely_has_hooks proc_info
           then detect_hooks_loop gpi now pids (next_id + 1)
                  (hooks @ [\<lparr>hook_id = next_id, hook_type = ''WH_KEYBOARD_LL'', owner_pid = p,
                             owner_process = name proc_info, module_path = path proc_info,
                             hook_timestamp = now\<rparr>])
           else detect_hooks_loop gpi now pids next_id hooks))"

definition windows_detect_hooks ::
  "int list \<Rightarrow> (int \<Rightarrow> ProcessInfo option) \<Rightarrow> string \<Rightarrow> HookInfo list" where
  \<comment> \<open>\<open>WindowsAPIEnumerator.detect_hooks\<close>: \<open>pids\<close> is what \<open>enumerate_processes\<close> returns
     in this cycle, \<open>gpi\<close> is \<open>get_process_info\<close>, \<open>now\<close> the time stamp\<close>
  "windows_detect_hooks pids gpi now = detect_hooks_loop gpi now pids 1 []"

definition mock_detect_hooks :: "string \<Rightarrow> HookInfo list" where
  \<comment> \<open>\<open>MockEnumerator.detect_hooks\<close>\<close>
  "mock_detect_hooks now =
     [\<lparr>hook_id = 1, hook_type = ''WH_KEYBOARD_LL'', owner_pid = 2248,
       owner_process = ''explorer.exe'', module_path = win ''C:/Windows/explorer.exe'',
       hook_timestamp = now\<rparr>,
      \<lparr>hook_id = 2, hook_type = ''WH_KEYBOARD_LL'', owner_pid = 4120,
       owner_process = ''badproc.exe'', module_path = win ''C:/Temp/badproc.exe'',
       hook_timestamp = now\<rparr>,
      \<lparr>hook_id = 3, hook_type = ''WH_KEYBOARD'', owner_pid = 8192,
       owner_process = ''unknown.exe'',
       module_path = win ''C:/Users/User/AppData/Local/Temp/unknown.exe'',
       hook_timestamp = now\<rparr>]"


section \<open>The monitor (monitor.py)\<close>

record MonitorEvent =
  event_type :: string
  hook_info :: "HookInfo option"
  process_info :: "ProcessInfo option"
  risk_assessment :: "RiskAssessment option"
  event_timestamp :: string
  details :: string

text \<open>
  What the monitor prints through \<open>self.ui\<close> is kept as the list of the calls. A
  subscriber is a Python callable: it acts on a state \<open>'w\<close> of its own and either
  returns or raises an \<open>Exception\<close> with a message.
\<close>

datatype ui_call =
  print_info string | print_warning string | print_error string | print_alert RiskLevel string

datatype 'w outcome = Returned 'w | Raised string 'w

type_synonym 'w callback = "MonitorEvent \<Rightarrow> 'w \<Rightarrow> 'w outcome"

record 'w HookMonitor =
  heuristics :: HeuristicEngine
  known_hooks :: "(int \<times> HookInfo) list"
  known_processes :: "int \<Rightarrow> ProcessInfo option"
  events :: "MonitorEvent list"
  on_event_callbacks :: "'w callback list"
  ui :: "ui_call list"
  world :: 'w

text \<open>
  One cycle sees the enumerator through \<open>detect_hooks\<close> and \<open>get_process_info\<close> and
  reads the clock in the two formats the code uses. Python does not fix the order in
  which a \<open>set\<close> is iterated: \<open>iter_ids\<close> and \<open>iter_names\<close> give, for the elements of a
  set, the order in which the interpreter yields them.
\<close>

record cycle =
  detect_hooks :: "HookInfo list"
  get_process_info :: "int \<Rightarrow> ProcessInfo option"
  now :: string
  now_iso :: string
  iter_ids :: "int list \<Rightarrow> int list"
  iter_names :: "string list \<Rightarrow> string list"

definition iteration_order :: "('a list \<Rightarrow> 'a list) \<Rightarrow> bool" where
  \<comment> \<open>iterating a set yields each of its elements once\<close>
  "iteration_order it = (\<forall>xs. set (it xs) = set xs \<and> length (it xs) = length xs)"

datatype py_exception = StopIteration | KeyError int

definition exception_str :: "py_exception \<Rightarrow> string" where
  \<comment> \<open>\<open>str(e)\<close>\<close>
  "exception_str e = (case e of StopIteration \<Rightarrow> '''' | KeyError k \<Rightarrow> show_int k)"

definition level_name :: "RiskLevel \<Rightarrow> string" where
  "level_name l =
     (case l of HIGH \<Rightarrow> ''HIGH'' | MEDIUM \<Rightarrow> ''MEDIUM'' | LOW \<Rightarrow> ''LOW'' | UNKNOWN \<Rightarrow> ''UNKNOWN'')"

definition alert_event :: "MonitorEvent \<Rightarrow> 'w HookMonitor \<Rightarrow> 'w HookMonitor" where
  "alert_event event m =
     (case risk_assessment event of
        Some ra \<Rightarrow>
          (let msg = details event @ '' | Risk: '' @ level_name (risk_level ra) @ '' (''
                       @ show_int (risk_score ra) @ ''/100)'';
               msg' = (if triggered_rules ra \<noteq> []
                       then msg @ '' | Flags: ''
                              @ join '', '' (map rule_name (take 2 (triggered_rules ra)))
                       else msg)
           in m\<lparr>ui := ui m @ [print_alert (risk_level ra) msg']\<rparr>)
      | None \<Rightarrow> m\<lparr>ui := ui m @ [print_info (details event)]\<rparr>)"

fun trigger_callbacks :: "'w callback list \<Rightarrow> MonitorEvent \<Rightarrow> 'w HookMonitor \<Rightarrow> 'w HookMonitor" where
  \<comment> \<open>\<open>for callback in self.on_event_callbacks: try: callback(event) except Exception as e:
      self.ui.print_error(...)\<close>\<close>
  "trigger_callbacks [] event m = m"
| "trigger_callbacks (callback # rest) event m =
     (case callback event (world m) of
        Returned w \<Rightarrow> trigger_callbacks rest event (m\<lparr>world := w\<rparr>)
      | Raised e w \<Rightarrow>
          trigger_callbacks rest event
            (m\<lparr>world := w, ui := ui m @ [print_error (''Callback error: '' @ e)]\<rparr>))"

definition handle_new_hook :: "cycle \<Rightarrow> HookInfo \<Rightarrow> 'w HookMonitor \<Rightarrow> 'w HookMonitor" where
  "handle_new_hook c hook m =
     (case get_process_info c (owner_pid hook) of
        None \<Rightarrow>
          m\<lparr>ui := ui m @ [print_warning (''New hook detected but cannot access process ''
                                           @ show_int (owner_pid hook))]\<rparr>
      | Some proc_info \<Rightarrow>
          (case analyze_hook (heuristics m) hook proc_info (now_iso c) of
             (assessment, eng) \<Rightarrow>
               (let event = \<lparr>event_type = ''hook_added'', hook_info = Some hook,
                             process_info = Some proc_info, risk_assessment = Some assessment,
                             event_timestamp = now c,
                             details = ''New '' @ hook_type hook @ '' hook from ''
                               @ name proc_info @ '' (PID '' @ show_int (owner_pid hook) @ '')''\<rparr>;
                    m1 = m\<lparr>heuristics := eng, events := events m @ [event],
                           known_processes := (known_processes m)(owner_pid hook \<mapsto> proc_info)\<rparr>;
                    m2 = alert_event event m1
                in trigger_callbacks (on_event_callbacks m2) event m2)))"

definition handle_removed_hook ::
  "cycle \<Rightarrow> int \<Rightarrow> 'w HookMonitor \<Rightarrow> py_exception \<times> 'w HookMonitor + 'w HookMonitor" where
  \<comment> \<open>\<open>self.known_hooks[hook_id]\<close> raises \<open>KeyError\<close> on a missing key\<close>
  "handle_removed_hook c hid m =
     (case map_of (known_hooks m) hid of
        None \<Rightarrow> Inl (KeyError hid, m)
      | Some removed_hook \<Rightarrow>
          (let event = \<lparr>event_type = ''hook_removed'', hook_info = Some removed_hook,
                        process_info = known_processes m (owner_pid removed_hook),
                        risk_assessment = None, event_timestamp = now c,
                        details = ''Hook '' @ show_int hid @ '' removed from ''
                          @ owner_process removed_hook @ '' (PID ''
                          @ show_int (owner_pid removed_hook) @ '')''\<rparr>;
               m1 = m\<lparr>events := events m @ [event]\<rparr>;
               m2 = m1\<lparr>ui := ui m1 @ [print_info (''Hook removed: '' @ details event)]\<rparr>
           in Inr (trigger_callbacks (on_event_callbacks m2) event m2)))"

definition process_changes :: "cycle \<Rightarrow> ProcessInfo option \<Rightarrow> ProcessInfo \<Rightarrow> string list" where
  \<comment> \<open>the list \<open>changes\<close> of \<open>_check_process_changes\<close>; \<open>changed\<close> is set exactly when a
     line is appended\<close>
  "process_changes c old_proc new_proc =
     (case old_proc of
        None \<Rightarrow> []
      | Some old \<Rightarrow>
          (if path old \<noteq> path new_proc
           then [''path changed from '' @ path old @ '' to '' @ path new_proc] else [])
          @ (if is_signed old \<noteq> is_signed new_proc then [''signature status changed''] else [])
          @ (if loaded_dlls old \<noteq> loaded_dlls new_proc
             then (let new_dlls =
                         iter_names c
                           (filter (\<lambda>d. \<not> List.member (loaded_dlls old) d)
                              (remdups (loaded_dlls new_proc)))
                   in if new_dlls \<noteq> []
                      then [''loaded new DLLs: '' @ join '', '' (take 3 new_dlls)] else [])
             else []))"

definition check_process_changes :: "cycle \<Rightarrow> HookInfo \<Rightarrow> 'w HookMonitor \<Rightarrow> 'w HookMonitor" where
  "check_process_changes c hook m =
     (case get_process_info c (owner_pid hook) of
        None \<Rightarrow> m
      | Some new_proc \<Rightarrow>
          (let changes = process_changes c (known_processes m (owner_pid hook)) new_proc in
           if changes \<noteq> []
           then (case analyze_hook (heuristics m) hook new_proc (now_iso c) of
                   (assessment, eng) \<Rightarrow>
                     (let event = \<lparr>event_type = ''process_changed'', hook_info = Some hook,
                                   process_info = Some new_proc,
                                   risk_assessment = Some assessment, event_timestamp = now c,
                                   details = ''Process '' @ name new_proc @ '' changed: ''
                                     @ join ''; '' changes\<rparr>;
                          m1 = m\<lparr>heuristics := eng, events := events m @ [event],
                                 known_processes :=
                                   (known_processes m)(owner_pid hook \<mapsto> new_proc)\<rparr>
                      in if risk_level assessment = HIGH then alert_event event m1 else m1))
           else m))"

fun new_hooks_loop ::
  "cycle \<Rightarrow> int list \<Rightarrow> 'w HookMonitor \<Rightarrow> py_exception \<times> 'w HookMonitor + 'w HookMonitor" where
  \<comment> \<open>\<open>for hook_id in new_hook_ids: hook = next(h for h in current_hooks if h.hook_id ==
      hook_id); self._handle_new_hook(hook)\<close>; \<open>next\<close> raises \<open>StopIteration\<close> when no hook
     has the id\<close>
  "new_hooks_loop c [] m = Inr m"
| "new_hooks_loop c (hid # rest) m =
     (case find (\<lambda>h. hook_id h = hid) (detect_hooks c) of
        None \<Rightarrow> Inl (StopIteration, m)
      | Some hook \<Rightarrow> new_hooks_loop c rest (handle_new_hook c hook m))"

fun removed_hooks_loop ::
  "cycle \<Rightarrow> int list \<Rightarrow> 'w HookMonitor \<Rightarrow> py_exception \<times> 'w HookMonitor + 'w HookMonitor" where
  "removed_hooks_loop c [] m = Inr m"
| "removed_hooks_loop c (hid # rest) m =
     (case handle_removed_hook c hid m of
        Inl err \<Rightarrow> Inl err
      | Inr m' \<Rightarrow> removed_hooks_loop c rest m')"

fun existing_hooks_loop :: "cycle \<Rightarrow> HookInfo list \<Rightarrow> 'w HookMonitor \<Rightarrow> 'w HookMonitor" where
  \<comment> \<open>\<open>for hook in current_hooks: if hook.hook_id in self.known_hooks:
      self._check_process_changes(hook)\<close>\<close>
  "existing_hooks_loop c [] m = m"
| "existing_hooks_loop c (hook # rest) m =
     existing_hooks_loop c rest
       (if List.member (map fst (known_hooks m)) (hook_id hook)
        then check_process_changes c hook m else m)"

definition dict_store :: "'k \<Rightarrow> 'v \<Rightarrow> ('k \<times> 'v) list \<Rightarrow> ('k \<times> 'v) list" where
  \<comment> \<open>\<open>d[k] = v\<close> on a dict kept in insertion order: a present key keeps its place\<close>
  "dict_store k v d =
     (if List.member (map fst d) k then map (\<lambda>(k', v'). if k' = k then (k', v) else (k', v')) d
      else d @ [(k, v)])"

definition hooks_by_id :: "HookInfo list \<Rightarrow> (int \<times> HookInfo) list" where
  \<comment> \<open>\<open>{hook.hook_id: hook for hook in current_hooks}\<close>\<close>
  "hooks_by_id hooks = fold (\<lambda>hook d. dict_store (hook_id hook) hook d) hooks []"

definition scan_failed :: "py_exception \<times> 'w HookMonitor \<Rightarrow> 'w HookMonitor" where
  \<comment> \<open>\<open>except Exception as e: self.ui.print_error(f"Error during scan: {e}")\<close>\<close>
  "scan_failed err =
     (case err of (e, m) \<Rightarrow> m\<lparr>ui := ui m @ [print_error (''Error during scan: '' @ exception_str e)]\<rparr>)"

definition perform_scan :: "cycle \<Rightarrow> 'w HookMonitor \<Rightarrow> 'w HookMonitor" where
  "perform_scan c m =
     (let current_hooks = detect_hooks c;
          current_hook_ids = remdups (map hook_id current_hooks);
          known_hook_ids = map fst (known_hooks m);
          new_hook_ids =
            iter_ids c (filter (\<lambda>i. \<not> List.member known_hook_ids i) current_hook_ids)
      in case new_hooks_loop c new_hook_ids m of
           Inl err \<Rightarrow> scan_failed err
         | Inr m1 \<Rightarrow>
             (let removed_hook_ids =
                    iter_ids c (filter (\<lambda>i. \<not> List.member current_hook_ids i) known_hook_ids)
              in case removed_hooks_loop c removed_hook_ids m1 of
                   Inl err \<Rightarrow> scan_failed err
                 | Inr m2 \<Rightarrow>
                     (existing_hooks_loop c current_hooks m2)
                       \<lparr>known_hooks := hooks_by_id current_hooks\<rparr>))"

definition new_monitor :: "string \<Rightarrow> 'w \<Rightarrow> 'w HookMonitor" where
  \<comment> \<open>the state \<open>HookMonitor.__init__\<close> sets up, with the subscribers' state \<open>w\<close>\<close>
  "new_monitor sens w =
     \<lparr>heuristics = engine_init sens, known_hooks = [], known_processes = Map.empty,
      events = [], on_event_callbacks = [], ui = [], world = w\<rparr>"

definition add_event_callback :: "'w callback \<Rightarrow> 'w HookMonitor \<Rightarrow> 'w HookMonitor" where
  "add_event_callback callback m = m\<lparr>on_event_callbacks := on_event_callbacks m @ [callback]\<rparr>"

definition scan_events :: "cycle \<Rightarrow> 'w HookMonitor \<Rightarrow> MonitorEvent list" where
  \<comment> \<open>the events one cycle appends to \<open>self.events\<close>, in the order of their emission\<close>
  "scan_events c m = drop (length (events m)) (events (perform_scan c m))"

definition event_ids :: "string \<Rightarrow> MonitorEvent list \<Rightarrow> int list" where
  \<comment> \<open>the hook ids of the events of one type, in the order of the events\<close>
  "event_ids ty evs =
     concat (map (\<lambda>e. case hook_info e of
                           Some h \<Rightarrow> if event_type e = ty then [hook_id h] else []
                         | None \<Rightarrow> []) evs)"


section \<open>Notions used in the proofs, and the inputs of the examples\<close>

definition fired_keys :: "ProcessInfo \<Rightarrow> int \<Rightarrow> rule_key list" where
  \<comment> \<open>the keys of the rules an analysis appends to \<open>triggered\<close>, in order\<close>
  "fired_keys proc hook_count = snd (run_checks proc hook_count (initialize_rules, []))"

definition spoofed_svchost :: "int \<Rightarrow> string \<Rightarrow> string \<Rightarrow> ProcessInfo" where
  \<comment> \<open>the process of the name-spoofing scenario; the scenario leaves the parent, the
     account and the time stamp open\<close>
  "spoofed_svchost ppid acct ts =
     \<lparr>pid = 4120, name = ''svchost.exe'', path = win ''C:/Temp/svchost.exe'',
      parent_pid = ppid, is_signed = False, user_account = acct, is_hidden_window = True,
      is_service = False, loaded_dlls = [''user32.dll'', ''suspicious.dll''],
      privileges = [''ELEVATED''], timestamp = ts\<rparr>"

definition quiet_env :: os_env where
  \<comment> \<open>an operating system that answers none of the detector's queries\<close>
  "quiet_env =
     \<lparr>file_publisher = (\<lambda>_. None), net_connections = (\<lambda>_. None), open_files = (\<lambda>_. None),
      memory_rss = (\<lambda>_. None), process_ancestry = (\<lambda>_. None), num_threads = (\<lambda>_. None)\<rparr>"

definition hostile_env :: os_env where
  \<comment> \<open>an operating system on which every advanced indicator fires\<close>
  "hostile_env =
     \<lparr>file_publisher = (\<lambda>_. None),
      net_connections = (\<lambda>_. Some [\<lparr>status = ''ESTABLISHED'', raddr = Some (''203.0.113.7'', 4444)\<rparr>]),
      open_files = (\<lambda>_. Some [win ''C:/Users/U/AppData/Local/Temp/keys.log'']),
      memory_rss = (\<lambda>_. Some 4194304),
      process_ancestry = (\<lambda>_. Some \<lparr>self_name = ''svchost.exe'', parent = Some (''python.exe'', True)\<rparr>),
      num_threads = (\<lambda>_. Some 2)\<rparr>"

definition system_svchost :: proc_dict where
  \<comment> \<open>a safe name in its trusted location, unsigned and hidden\<close>
  "system_svchost =
     \<lparr>d_pid = Some 1234, d_name = Some ''svchost.exe'',
      d_path = Some (win ''C:/Windows/System32/svchost.exe''), d_is_signed = Some False,
      d_is_hidden = Some True\<rparr>"

definition keyword_binary :: proc_dict where
  \<comment> \<open>the keyword-named user binary of the third scenario\<close>
  "keyword_binary =
     \<lparr>d_pid = Some 8192, d_name = Some ''pynput_keylog.exe'',
      d_path = Some (win ''C:/Users/U/AppData/Local/Temp/pynput_keylog.exe''),
      d_is_signed = Some False, d_is_hidden = None\<rparr>"

definition owner_accessible :: "cycle \<Rightarrow> int \<Rightarrow> bool" where
  \<comment> \<open>\<open>get_process_info\<close> answers for the owner of the hook that \<open>next(...)\<close> selects for
     the id\<close>
  "owner_accessible c hid =
     (case find (\<lambda>h. hook_id h = hid) (detect_hooks c) of
        None \<Rightarrow> False
      | Some hook \<Rightarrow> get_process_info c (owner_pid hook) \<noteq> None)"

definition well_keyed :: "'w HookMonitor \<Rightarrow> bool" where
  \<comment> \<open>\<open>known_hooks\<close> is a dict (no key twice) that holds every hook under its own id, as
     the comprehension at the end of a scan builds it\<close>
  "well_keyed m =
     (distinct (map fst (known_hooks m))
      \<and> list_all (\<lambda>kh. hook_id (snd kh) = fst kh) (known_hooks m))"

definition outcome_world :: "'w outcome \<Rightarrow> 'w" where
  \<comment> \<open>the subscribers' state after a call, returned or raised\<close>
  "outcome_world r = (case r of Returned w \<Rightarrow> w | Raised e w \<Rightarrow> w)"

definition hosts :: "int \<Rightarrow> ProcessInfo option" where
  \<comment> \<open>two processes whose names are on the list of common hook hosts\<close>
  "hosts p =
     (if p = 10 then
        Some \<lparr>pid = 10, name = ''skype.exe'', path = win ''C:/Apps/skype.exe'', parent_pid = 0,
              is_signed = True, user_account = ''UNKNOWN'', is_hidden_window = False,
              is_service = False, loaded_dlls = [], privileges = [''NORMAL''], timestamp = []\<rparr>
      else if p = 20 then
        Some \<lparr>pid = 20, name = ''obs64.exe'', path = win ''C:/Apps/obs64.exe'', parent_pid = 0,
              is_signed = True, user_account = ''UNKNOWN'', is_hidden_window = False,
              is_service = False, loaded_dlls = [], privileges = [''NORMAL''], timestamp = []\<rparr>
      else None)"

definition hook_of :: "int \<Rightarrow> int \<Rightarrow> HookInfo" where
  \<comment> \<open>a keyboard hook with the given id and owner\<close>
  "hook_of hid owner =
     \<lparr>hook_id = hid, hook_type = ''WH_KEYBOARD_LL'', owner_pid = owner,
      owner_process = ''app.exe'', module_path = win ''C:/Apps/app.exe'', hook_timestamp = []\<rparr>"

definition app_process :: "int \<Rightarrow> string \<Rightarrow> ProcessInfo" where
  "app_process p pth =
     \<lparr>pid = p, name = ''app.exe'', path = pth, parent_pid = 0, is_signed = True,
      user_account = ''UNKNOWN'', is_hidden_window = False, is_service = False,
      loaded_dlls = [], privileges = [''NORMAL''], timestamp = []\<rparr>"

definition cycle_of :: "HookInfo list \<Rightarrow> (int \<Rightarrow> ProcessInfo option) \<Rightarrow> cycle" where
  \<comment> \<open>a cycle whose sets are iterated in the order of their lists\<close>
  "cycle_of hooks gpi =
     \<lparr>detect_hooks = hooks, get_process_info = gpi, now = [], now_iso = [],
      iter_ids = (\<lambda>xs. xs), iter_names = (\<lambda>xs. xs)\<rparr>"

definition all_apps :: "int \<Rightarrow> ProcessInfo option" where
  "all_apps p = Some (app_process p (win ''C:/Apps/app.exe''))"

definition moved_apps :: "int \<Rightarrow> ProcessInfo option" where
  \<comment> \<open>as \<open>all_apps\<close>, but the executable path has changed\<close>
  "moved_apps p = Some (app_process p (win ''C:/Other/app.exe''))"

definition cycle_AB :: cycle where
  "cycle_AB = cycle_of [hook_of 1 101, hook_of 2 102] all_apps"

definition cycle_BC :: cycle where
  \<comment> \<open>hook 1 of process 101 is gone and process 101 has registered hook 3\<close>
  "cycle_BC = cycle_of [hook_of 2 102, hook_of 3 101] all_apps"

definition cycle_BC_moved :: cycle where
  "cycle_BC_moved = cycle_of [hook_of 2 102, hook_of 3 101] moved_apps"

definition cycle_gone :: cycle where
  \<comment> \<open>a new hook whose owner has exited before \<open>get_process_info\<close> is asked\<close>
  "cycle_gone = cycle_of [hook_of 7 999] (\<lambda>_. None)"

definition s1_throws :: "(string \<times> int option) list callback" where
  "s1_throws event w = Raised ''boom'' w"

definition s2_records :: "(string \<times> int option) list callback" where
  \<comment> \<open>records the type and the hook id of every event it receives\<close>
  "s2_records event w =
     Returned (w @ [(event_type event, map_option hook_id (hook_info event))])"

definition watched_monitor :: "(string \<times> int option) list HookMonitor" where
  \<comment> \<open>a fresh monitor with the subscribers \<open>s1\<close> and \<open>s2\<close>, registered in this order\<close>
  "watched_monitor =
     add_event_callback s2_records (add_event_callback s1_throws (new_monitor ''medium'' []))"

definition scan_shape ::
  "cycle \<Rightarrow> 'w HookMonitor \<Rightarrow> MonitorEvent list \<Rightarrow> MonitorEvent list \<Rightarrow> MonitorEvent list \<Rightarrow> bool" where
  \<comment> \<open>the events of one cycle, split into the three loops that emit them\<close>
  "scan_shape c m A R P =
     (scan_events c m = A @ R @ P
      \<and> list_all (\<lambda>e. event_type e = ''hook_added'') A
      \<and> list_all (\<lambda>e. event_type e = ''hook_removed'') R
      \<and> list_all (\<lambda>e. event_type e = ''process_changed'') P
      \<and> set (event_ids ''hook_added'' A)
          = {i \<in> hook_id ` set (detect_hooks c) - fst ` set (known_hooks m).
               owner_accessible c i}
      \<and> set (event_ids ''hook_removed'' R)
          = fst ` set (known_hooks m) - hook_id ` set (detect_hooks c))"

definition numbered :: "HookInfo list \<Rightarrow> bool" where
  \<comment> \<open>the hook ids of the list are 1, 2, ..., n in this order: what the counter of
     \<open>WindowsAPIEnumerator.detect_hooks\<close> and the literals of
     \<open>MockEnumerator.detect_hooks\<close> give\<close>
  "numbered hooks = (map hook_id hooks = map (\<lambda>i. 1 + int i) [0..<length hooks])"






definition cycle_exited :: cycle where
  \<comment> \<open>process 10 is a hook candidate when \<open>detect_hooks\<close> runs and has exited when the
     monitor asks for its process information\<close>
  "cycle_exited = cycle_of (windows_detect_hooks [10] hosts []) (\<lambda>_. None)"

definition cycle_AB_moved :: cycle where
  \<comment> \<open>the hooks of \<open>cycle_AB\<close>, the executable path of their owners changed\<close>
  "cycle_AB_moved = cycle_of [hook_of 1 101, hook_of 2 102] moved_apps"


section \<open>The heuristic engine: scores and levels\<close>

lemma fire_weight: "weight (fst (fire k ev st) j) = weight (fst st j)"
  by (cases st) (simp add: fire_def)

lemma fire_keys: "snd (fire k ev st) = snd st @ [k]"
  by (cases st) (simp add: fire_def)

lemmas check_defs =
  check_unsigned_binary_def check_hidden_window_def check_unusual_path_def
  check_elevated_privileges_def check_suspicious_dlls_def check_orphan_process_def
  check_temp_location_def check_name_spoofing_def check_service_anomaly_def
  check_multiple_hooks_def

lemma check_weight:
  "weight (fst (check_unsigned_binary p st) j) = weight (fst st j)"
  "weight (fst (check_hidden_window p st) j) = weight (fst st j)"
  "weight (fst (check_unusual_path p st) j) = weight (fst st j)"
  "weight (fst (check_elevated_privileges p st) j) = weight (fst st j)"
  "weight (fst (check_suspicious_dlls p st) j) = weight (fst st j)"
  "weight (fst (check_orphan_process p st) j) = weight (fst st j)"
  "weight (fst (check_temp_location p st) j) = weight (fst st j)"
  "weight (fst (check_name_spoofing p st) j) = weight (fst st j)"
  "weight (fst (check_service_anomaly p st) j) = weight (fst st j)"
  "weight (fst (check_multiple_hooks hc st) j) = weight (fst st j)"
  by (simp_all add: check_defs fire_weight Let_def split: option.split)

lemma check_keys:
  "snd st = snd st' \<Longrightarrow> snd (check_unsigned_binary p st) = snd (check_unsigned_binary p st')"
  "snd st = snd st' \<Longrightarrow> snd (check_hidden_window p st) = snd (check_hidden_window p st')"
  "snd st = snd st' \<Longrightarrow> snd (check_unusual_path p st) = snd (check_unusual_path p st')"
  "snd st = snd st' \<Longrightarrow> snd (check_elevated_privileges p st) = snd (check_elevated_privileges p st')"
  "snd st = snd st' \<Longrightarrow> snd (check_suspicious_dlls p st) = snd (check_suspicious_dlls p st')"
  "snd st = snd st' \<Longrightarrow> snd (check_orphan_process p st) = snd (check_orphan_process p st')"
  "snd st = snd st' \<Longrightarrow> snd (check_temp_location p st) = snd (check_temp_location p st')"
  "snd st = snd st' \<Longrightarrow> snd (check_name_spoofing p st) = snd (check_name_spoofing p st')"
  "snd st = snd st' \<Longrightarrow> snd (check_service_anomaly p st) = snd (check_service_anomaly p st')"
  "snd st = snd st' \<Longrightarrow> snd (check_multiple_hooks hc st) = snd (check_multiple_hooks hc st')"
  by (simp_all add: check_defs fire_keys Let_def split: option.split)

lemma run_checks_weight: "weight (fst (run_checks p hc st) j) = weight (fst st j)"
  by (simp add: run_checks_def check_weight)

lemma run_checks_keys:
  "snd st = snd st' \<Longrightarrow> snd (run_checks p hc st) = snd (run_checks p hc st')"
  unfolding run_checks_def by (intro check_keys)

lemma reset_weight: "weight (reset_rules rs k) = weight (rs k)"
  by (simp add: reset_rules_def)

lemma score_as_sum:
  "risk_score (fst (engine_analyze_process eng p hc t)) =
     sum_list (map (\<lambda>k. weight (rules eng k)) (fired_keys p hc))"
proof -
  obtain rs trig where r: "run_checks p hc (reset_rules (rules eng), []) = (rs, trig)"
    by (cases "run_checks p hc (reset_rules (rules eng), [])")
  have w: "weight (rs k) = weight (rules eng k)" for k
    using run_checks_weight [of p hc "(reset_rules (rules eng), [])" k] r
    by (simp add: reset_weight)
  have k: "trig = fired_keys p hc"
    using run_checks_keys [of "(reset_rules (rules eng), [])" "(initialize_rules, [])" p hc] r
    by (simp add: fired_keys_def)
  show ?thesis
    by (simp add: engine_analyze_process_def r Let_def comp_def w k)
qed

lemma init_weight_nonneg: "0 \<le> weight (rules (engine_init s) k)"
  by (cases k) (simp_all add: engine_init_def scale_weight_def mk_rule_def)

lemma score_nonneg: "0 \<le> risk_score (fst (engine_analyze_process (engine_init s) p hc t))"
  unfolding score_as_sum by (rule sum_list_nonneg) (auto simp: init_weight_nonneg)

lemma level_is_level_of_score:
  "risk_level (fst (engine_analyze_process eng p hc t)) =
     level_of_score (risk_score (fst (engine_analyze_process eng p hc t)))"
  by (simp add: engine_analyze_process_def Let_def split: prod.split)



lemma fire_rule_id: "rule_id (fst (fire k ev st) j) = rule_id (fst st j)"
  by (cases st) (simp add: fire_def)

lemma check_rule_id:
  "rule_id (fst (check_unsigned_binary p st) j) = rule_id (fst st j)"
  "rule_id (fst (check_hidden_window p st) j) = rule_id (fst st j)"
  "rule_id (fst (check_unusual_path p st) j) = rule_id (fst st j)"
  "rule_id (fst (check_elevated_privileges p st) j) = rule_id (fst st j)"
  "rule_id (fst (check_suspicious_dlls p st) j) = rule_id (fst st j)"
  "rule_id (fst (check_orphan_process p st) j) = rule_id (fst st j)"
  "rule_id (fst (check_temp_location p st) j) = rule_id (fst st j)"
  "rule_id (fst (check_name_spoofing p st) j) = rule_id (fst st j)"
  "rule_id (fst (check_service_anomaly p st) j) = rule_id (fst st j)"
  "rule_id (fst (check_multiple_hooks hc st) j) = rule_id (fst st j)"
  by (simp_all add: check_defs fire_rule_id Let_def split: option.split)

lemma run_checks_rule_id: "rule_id (fst (run_checks p hc st) j) = rule_id (fst st j)"
  by (simp add: run_checks_def check_rule_id)

lemma ids_as_map:
  "map rule_id (triggered_rules (fst (engine_analyze_process eng p hc t))) =
     map (\<lambda>k. rule_id (rules eng k)) (fired_keys p hc)"
proof -
  obtain rs trig where r: "run_checks p hc (reset_rules (rules eng), []) = (rs, trig)"
    by (cases "run_checks p hc (reset_rules (rules eng), [])")
  have w: "rule_id (rs k) = rule_id (rules eng k)" for k
    using run_checks_rule_id [of p hc "(reset_rules (rules eng), [])" k] r
    by (simp add: reset_rules_def)
  have k: "trig = fired_keys p hc"
    using run_checks_keys [of "(reset_rules (rules eng), [])" "(initialize_rules, [])" p hc] r
    by (simp add: fired_keys_def)
  show ?thesis
    by (simp add: engine_analyze_process_def r Let_def comp_def w k)
qed

lemma weights_ordered:
  "weight (rules (engine_init ''low'') k) \<le> weight (rules (engine_init ''medium'') k)"
  "weight (rules (engine_init ''medium'') k) \<le> weight (rules (engine_init ''high'') k)"
  by (cases k; simp add: engine_init_def scale_weight_def mk_rule_def)+

lemma ids_fixed: "rule_id (rules (engine_init s) k) = rule_id (initialize_rules k)"
  by (simp add: engine_init_def scale_weight_def)

text \<open>
  Claim C4. For every assessment that \<open>HeuristicEngine.analyze_process\<close> returns, on an
  engine constructed with any sensitivity, the level is HIGH exactly when the score is at
  least 61, MEDIUM exactly when it lies between 31 and 60, and LOW exactly when it lies
  between 0 and 30; \<open>classify_risk\<close> draws the same three bands on every integer.
\<close>

theorem level_thresholds:
  "(risk_level (fst (engine_analyze_process (engine_init s) p hc t)) = HIGH
      \<longleftrightarrow> 61 \<le> risk_score (fst (engine_analyze_process (engine_init s) p hc t)))
   \<and> (risk_level (fst (engine_analyze_process (engine_init s) p hc t)) = MEDIUM
      \<longleftrightarrow> 31 \<le> risk_score (fst (engine_analyze_process (engine_init s) p hc t))
          \<and> risk_score (fst (engine_analyze_process (engine_init s) p hc t)) \<le> 60)
   \<and> (risk_level (fst (engine_analyze_process (engine_init s) p hc t)) = LOW
      \<longleftrightarrow> 0 \<le> risk_score (fst (engine_analyze_process (engine_init s) p hc t))
          \<and> risk_score (fst (engine_analyze_process (engine_init s) p hc t)) \<le> 30)
   \<and> (classify_risk n = HIGH \<longleftrightarrow> 61 \<le> n)
   \<and> (classify_risk n = MEDIUM \<longleftrightarrow> 31 \<le> n \<and> n \<le> 60)
   \<and> (classify_risk n = LOW \<longleftrightarrow> 0 \<le> n \<and> n \<le> 30)"
  using score_nonneg [of s p hc t]
  by (simp add: level_is_level_of_score level_of_score_def classify_risk_def)

text \<open>
  Claim C5. For every process and hook count, the score of an engine constructed with
  sensitivity "high" is at least the score of one constructed with "medium", which is at
  least the score of one constructed with "low", and the three analyses trigger the same
  rules in the same order.
\<close>

theorem sensitivity_monotone:
  "risk_score (fst (engine_analyze_process (engine_init ''low'') p hc t))
     \<le> risk_score (fst (engine_analyze_process (engine_init ''medium'') p hc t'))
   \<and> risk_score (fst (engine_analyze_process (engine_init ''medium'') p hc t'))
     \<le> risk_score (fst (engine_analyze_process (engine_init ''high'') p hc t''))
   \<and> map rule_id (triggered_rules (fst (engine_analyze_process (engine_init ''low'') p hc t)))
       = map rule_id
           (triggered_rules (fst (engine_analyze_process (engine_init ''medium'') p hc t')))
   \<and> map rule_id (triggered_rules (fst (engine_analyze_process (engine_init ''high'') p hc t'')))
       = map rule_id
           (triggered_rules (fst (engine_analyze_process (engine_init ''medium'') p hc t')))"
  by (simp add: score_as_sum ids_as_map ids_fixed sum_list_mono weights_ordered)

text \<open>
  Claim C10. Every assessment that \<open>HeuristicEngine.analyze_process\<close> returns, on an
  engine constructed with any sensitivity, has a score that is not negative and a level
  among LOW, MEDIUM and HIGH; \<open>classify_risk\<close> answers UNKNOWN exactly on the negative
  scores.
\<close>

theorem assessment_never_unknown:
  "0 \<le> risk_score (fst (engine_analyze_process (engine_init s) p hc t))
   \<and> risk_level (fst (engine_analyze_process (engine_init s) p hc t)) \<in> {LOW, MEDIUM, HIGH}
   \<and> risk_level (fst (engine_analyze_process (engine_init s) p hc t)) \<noteq> UNKNOWN
   \<and> (classify_risk n = UNKNOWN \<longleftrightarrow> n < 0)"
  using score_nonneg [of s p hc t]
  by (simp add: level_is_level_of_score level_of_score_def classify_risk_def)


section \<open>The name-spoofing scenario\<close>

lemma spoofed_facts:
  "\<not> py_in (win ''/windows/'') (lower (win ''C:/Temp/svchost.exe''))"
  "\<not> py_in (win ''/program files'') (lower (win ''C:/Temp/svchost.exe''))"
  "list_ex (\<lambda>sus_path. py_in sus_path (lower (win ''C:/Temp/svchost.exe''))) suspicious_paths"
  "List.member [''ELEVATED''] ''ELEVATED''"
  "\<not> List.member system_elevated (lower ''svchost.exe'')"
  "find (\<lambda>dll. list_ex (\<lambda>pattern. py_in pattern (lower dll)) suspicious_dll_patterns)
     [''user32.dll'', ''suspicious.dll''] = Some ''suspicious.dll''"
  "list_ex (\<lambda>temp_path. py_in temp_path (lower (win ''C:/Temp/svchost.exe''))) temp_paths"
  "map_of system_procs (lower ''svchost.exe'') = Some (win ''/windows/system32/svchost.exe'')"
  "\<not> py_in (win ''/windows/system32/svchost.exe'') (lower (win ''C:/Temp/svchost.exe''))"
  "lower ''svchost.exe'' \<notin> set system_elevated"
  "list_ex (\<lambda>pattern. py_in pattern (lower ''suspicious.dll'')) suspicious_dll_patterns"
  "\<not> list_ex (\<lambda>pattern. py_in pattern (lower ''user32.dll'')) suspicious_dll_patterns"
  by code_simp+

lemma spoofed_keys:
  assumes "\<not> (0 < ppid \<and> ppid < 4)" and "hc \<le> 2"
  shows "fired_keys (spoofed_svchost ppid acct ts) hc =
     [unsigned_binary, hidden_window, unusual_path, elevated_privileges, suspicious_dll,
      temp_location, name_spoofing]"
  using assms
  by (simp add: fired_keys_def run_checks_def check_defs spoofed_svchost_def spoofed_facts
        fire_def Let_def)

text \<open>
  Claim C3, as stated, fails: at medium sensitivity the process of the name-spoofing
  scenario (parent unknown, one hook) also triggers R004, since it holds ELEVATED, is no
  service and its name is not on the list of programs that are elevated by design; the
  score is not 155.
\<close>

theorem spoofing_scenario_counterexample:
  "map rule_id (triggered_rules (fst (engine_analyze_process (engine_init ''medium'')
       (spoofed_svchost 0 ''UNKNOWN'' []) 1 [])))
     \<noteq> [''R001'', ''R002'', ''R003'', ''R005'', ''R007'', ''R008'']
   \<and> risk_score (fst (engine_analyze_process (engine_init ''medium'')
       (spoofed_svchost 0 ''UNKNOWN'' []) 1 [])) \<noteq> 155"
  by code_simp

text \<open>
  Claim C3, amended. For the process of the name-spoofing scenario, with a parent pid
  outside 1..3 and at most two hooks, the engine at medium sensitivity triggers exactly
  the rules R001, R002, R003, R004, R005, R007 and R008, in this order; the score is
  25 + 20 + 30 + 15 + 25 + 20 + 35 = 170 and the level is HIGH.
\<close>

theorem spoofing_scenario:
  assumes "\<not> (0 < ppid \<and> ppid < 4)" and "hc \<le> 2"
  shows "map rule_id (triggered_rules (fst (engine_analyze_process (engine_init ''medium'')
            (spoofed_svchost ppid acct ts) hc t)))
          = [''R001'', ''R002'', ''R003'', ''R004'', ''R005'', ''R007'', ''R008'']
       \<and> risk_score (fst (engine_analyze_process (engine_init ''medium'')
            (spoofed_svchost ppid acct ts) hc t)) = 170
       \<and> risk_level (fst (engine_analyze_process (engine_init ''medium'')
            (spoofed_svchost ppid acct ts) hc t)) = HIGH"
  by (simp add: level_is_level_of_score level_of_score_def score_as_sum ids_as_map
        spoofed_keys [OF assms] engine_init_def mk_rule_def)

theorem spoofing_scenario_witness:
  "map rule_id (triggered_rules (fst (engine_analyze_process (engine_init ''medium'')
            (spoofed_svchost 0 ''UNKNOWN'' []) 1 [])))
          = [''R001'', ''R002'', ''R003'', ''R004'', ''R005'', ''R007'', ''R008'']
       \<and> risk_score (fst (engine_analyze_process (engine_init ''medium'')
            (spoofed_svchost 0 ''UNKNOWN'' []) 1 [])) = 170
       \<and> risk_level (fst (engine_analyze_process (engine_init ''medium'')
            (spoofed_svchost 0 ''UNKNOWN'' []) 1 [])) = HIGH"
  using spoofing_scenario [of 0 1 "''UNKNOWN''" "[]" "[]"] by simp



section \<open>The decision core: whitelist and emission\<close>

lemma decide_cases:
  "decide proc a = None \<longleftrightarrow> acc_threat_score a < 3"
  by (simp add: decide_def Let_def)

lemma decide_Some:
  assumes "decide proc a = Some d"
  shows "threat_score d = acc_threat_score a \<and> 3 \<le> threat_score d
         \<and> confidence d = min (acc_confidence a) 1
         \<and> det_evidence d = acc_evidence a
         \<and> network_activity d = mentions ''NETWORK'' (det_evidence d)
         \<and> file_logging d = mentions ''FILE LOGGING'' (det_evidence d)
         \<and> memory_suspicious d = mentions ''MEMORY'' (det_evidence d)
         \<and> process_injection d
             = list_ex (\<lambda>e. py_in ''INJECTION'' e \<or> py_in ''ANCESTRY'' e) (det_evidence d)"
  using assms by (auto simp: decide_def Let_def split: if_splits)

text \<open>
  Claim C1. A run of \<open>ProductionKeyloggerDetector.analyze_process\<close> returns a detection
  if and only if it has accumulated a threat score and that score is at least 3 (a run
  that the first stage ends has accumulated none and returns nothing). A returned
  detection carries that score, a confidence of at most 1.0, and the four flags that the
  keyword search in its evidence lines gives: NETWORK, FILE LOGGING, MEMORY, and
  INJECTION or ANCESTRY.
\<close>

theorem emission_rule:
  "((\<exists>d. detector_analyze_process env proc = Some d)
      \<longleftrightarrow> (\<exists>s. accumulated_threat_score env proc = Some s \<and> 3 \<le> s))
   \<and> (\<forall>d. detector_analyze_process env proc = Some d \<longrightarrow>
          accumulated_threat_score env proc = Some (threat_score d)
          \<and> 3 \<le> threat_score d
          \<and> confidence d \<le> 1
          \<and> network_activity d = mentions ''NETWORK'' (det_evidence d)
          \<and> file_logging d = mentions ''FILE LOGGING'' (det_evidence d)
          \<and> memory_suspicious d = mentions ''MEMORY'' (det_evidence d)
          \<and> process_injection d
              = list_ex (\<lambda>e. py_in ''INJECTION'' e \<or> py_in ''ANCESTRY'' e) (det_evidence d))"
proof (cases "whitelisted env proc")
  case True
  then show ?thesis
    by (simp add: detector_analyze_process_def accumulated_threat_score_def)
next
  case False
  have iff: "(\<exists>d. decide proc (accumulate env proc) = Some d)
               \<longleftrightarrow> 3 \<le> acc_threat_score (accumulate env proc)"
    using decide_cases [of proc "accumulate env proc"] by auto
  have props: "accumulated_threat_score env proc = Some (threat_score d)
          \<and> 3 \<le> threat_score d
          \<and> confidence d \<le> 1
          \<and> network_activity d = mentions ''NETWORK'' (det_evidence d)
          \<and> file_logging d = mentions ''FILE LOGGING'' (det_evidence d)
          \<and> memory_suspicious d = mentions ''MEMORY'' (det_evidence d)
          \<and> process_injection d
              = list_ex (\<lambda>e. py_in ''INJECTION'' e \<or> py_in ''ANCESTRY'' e) (det_evidence d)"
    if "decide proc (accumulate env proc) = Some d" for d
    using decide_Some [OF that] False by (simp add: accumulated_threat_score_def)
  show ?thesis
    using False iff props
    by (simp add: detector_analyze_process_def accumulated_threat_score_def)
qed

lemma keyword_binary_score: "accumulated_threat_score quiet_env keyword_binary = Some 5"
  by code_simp

theorem emission_rule_witness:
  "\<exists>d. detector_analyze_process quiet_env keyword_binary = Some d
       \<and> threat_score d = 5 \<and> confidence d \<le> 1
       \<and> network_activity d = mentions ''NETWORK'' (det_evidence d)"
proof -
  have "\<exists>s. accumulated_threat_score quiet_env keyword_binary = Some s \<and> 3 \<le> s"
    by (simp add: keyword_binary_score)
  then obtain d where d: "detector_analyze_process quiet_env keyword_binary = Some d"
    using emission_rule [of quiet_env keyword_binary] by blast
  then show ?thesis
    using emission_rule [of quiet_env keyword_binary] keyword_binary_score by auto
qed

text \<open>
  Claim C2. A process whose name is in the safe-process set and whose path is under a
  trusted location, and for which name spoofing does not fire, is analysed to \<open>None\<close>,
  whatever the other fields of the record and whatever the operating system answers.
\<close>

theorem whitelist_short_circuit:
  assumes "List.member safe_process_names (lower (dict_get (d_name proc) ''''))"
    and "is_trusted_location (dict_get (d_path proc) '''')"
    and "\<not> fst (detect_name_spoofing (dict_get (d_name proc) '''') (dict_get (d_path proc) ''''))"
  shows "detector_analyze_process env proc = None"
  using assms by (simp add: detector_analyze_process_def whitelisted_def Let_def)

theorem whitelist_short_circuit_witness:
  "detector_analyze_process hostile_env system_svchost = None"
  by (rule whitelist_short_circuit; code_simp)


section \<open>Hook identifiers across cycles\<close>

lemma loop_ids:
  "map hook_id (detect_hooks_loop gpi t pids n hooks) =
     map hook_id hooks @ map (\<lambda>i. n + int i) [0..<length (detect_hooks_loop gpi t pids n hooks) - length hooks]"
proof (induction pids arbitrary: n hooks)
  case Nil
  then show ?case by simp
next
  case (Cons p pids)
  show ?case
  proof (cases "gpi p")
    case None
    then show ?thesis using Cons.IH [of n hooks] by simp
  next
    case (Some pi)
    show ?thesis
    proof (cases "has_hook_indicators pi \<or> likely_has_hooks pi")
      case False
      then show ?thesis using Some Cons.IH [of n hooks] by simp
    next
      case True
      let ?h = "\<lparr>hook_id = n, hook_type = ''WH_KEYBOARD_LL'', owner_pid = p,
                 owner_process = name pi, module_path = path pi, hook_timestamp = t\<rparr>"
      let ?r = "detect_hooks_loop gpi t pids (n + 1) (hooks @ [?h])"
      have len: "length hooks + 1 \<le> length ?r"
        using arg_cong [OF Cons.IH [of "n + 1" "hooks @ [?h]"], of length] by simp
      then obtain k where k: "length ?r - length hooks = Suc k" "length ?r - length (hooks @ [?h]) = k"
        by (cases "length ?r - length hooks") auto
      have "map hook_id ?r = map hook_id hooks @ [n] @ map (\<lambda>i. n + 1 + int i) [0..<k]"
        using Cons.IH [of "n + 1" "hooks @ [?h]"] k by simp
      also have "[n] @ map (\<lambda>i. n + 1 + int i) [0..<k] = map (\<lambda>i. n + int i) [0..<Suc k]"
        by (simp add: upt_rec [of 0 "Suc k"] map_Suc_upt [symmetric] del: upt_Suc)
      finally show ?thesis using Some True k by simp
    qed
  qed
qed

lemma windows_ids:
  "map hook_id (windows_detect_hooks pids gpi t) =
     map (\<lambda>i. 1 + int i) [0..<length (windows_detect_hooks pids gpi t)]"
  using loop_ids [of gpi t pids 1 "[]"] by (simp add: windows_detect_hooks_def)







section \<open>The monitor: what one cycle emits\<close>

lemma alert_frame:
  "events (alert_event e m) = events m"
  "known_hooks (alert_event e m) = known_hooks m"
  "on_event_callbacks (alert_event e m) = on_event_callbacks m"
  "world (alert_event e m) = world m"
  by (simp_all add: alert_event_def Let_def split: option.split)

lemma trigger_frame:
  "events (trigger_callbacks cbs e m) = events m
   \<and> known_hooks (trigger_callbacks cbs e m) = known_hooks m
   \<and> on_event_callbacks (trigger_callbacks cbs e m) = on_event_callbacks m"
  by (induction cbs arbitrary: m) (simp_all split: outcome.split)

lemma trigger_world:
  "world (trigger_callbacks cbs e m) = foldl (\<lambda>w cb. outcome_world (cb e w)) (world m) cbs"
  by (induction cbs arbitrary: m) (simp_all add: outcome_world_def split: outcome.split)

lemma event_ids_append: "event_ids ty (xs @ ys) = event_ids ty xs @ event_ids ty ys"
  by (simp add: event_ids_def)

lemma event_ids_other:
  "\<forall>e \<in> set E. event_type e = ty' \<Longrightarrow> ty \<noteq> ty' \<Longrightarrow> event_ids ty E = []"
  by (induction E) (auto simp: event_ids_def split: option.split)

lemma handle_new_hook_frame:
  "known_hooks (handle_new_hook c h m) = known_hooks m
   \<and> on_event_callbacks (handle_new_hook c h m) = on_event_callbacks m"
  by (simp add: handle_new_hook_def Let_def alert_frame trigger_frame
        split: option.split prod.split)

lemma handle_new_hook_events:
  "\<exists>E. events (handle_new_hook c h m) = events m @ E
       \<and> (\<forall>e \<in> set E. event_type e = ''hook_added'')
       \<and> event_ids ''hook_added'' E
           = (if get_process_info c (owner_pid h) \<noteq> None then [hook_id h] else [])"
  by (auto simp: handle_new_hook_def Let_def alert_frame trigger_frame event_ids_def
        split: option.split prod.split)

lemma find_hook:
  "i \<in> hook_id ` set hs \<Longrightarrow> \<exists>h. find (\<lambda>h. hook_id h = i) hs = Some h \<and> hook_id h = i"
  by (induction hs) auto

lemma new_loop:
  assumes "set ids \<subseteq> hook_id ` set (detect_hooks c)"
  shows "\<exists>m' E. new_hooks_loop c ids m = Inr m'
           \<and> events m' = events m @ E
           \<and> known_hooks m' = known_hooks m
           \<and> on_event_callbacks m' = on_event_callbacks m
           \<and> (\<forall>e \<in> set E. event_type e = ''hook_added'')
           \<and> event_ids ''hook_added'' E = filter (owner_accessible c) ids"
  using assms
proof (induction ids arbitrary: m)
  case Nil
  then show ?case by (simp add: event_ids_def)
next
  case (Cons i ids)
  from Cons.prems obtain h where h: "find (\<lambda>h. hook_id h = i) (detect_hooks c) = Some h"
    and hi: "hook_id h = i"
    using find_hook [of i "detect_hooks c"] by auto
  obtain E1 where E1: "events (handle_new_hook c h m) = events m @ E1"
    "\<forall>e \<in> set E1. event_type e = ''hook_added''"
    "event_ids ''hook_added'' E1
       = (if get_process_info c (owner_pid h) \<noteq> None then [hook_id h] else [])"
    using handle_new_hook_events [of c h m] by blast
  from Cons.prems have "set ids \<subseteq> hook_id ` set (detect_hooks c)" by simp
  from Cons.IH [OF this, of "handle_new_hook c h m"]
  obtain m' E2 where r: "new_hooks_loop c ids (handle_new_hook c h m) = Inr m'"
    "events m' = events (handle_new_hook c h m) @ E2"
    "known_hooks m' = known_hooks (handle_new_hook c h m)"
    "on_event_callbacks m' = on_event_callbacks (handle_new_hook c h m)"
    "\<forall>e \<in> set E2. event_type e = ''hook_added''"
    "event_ids ''hook_added'' E2 = filter (owner_accessible c) ids"
    by blast
  have acc: "owner_accessible c i \<longleftrightarrow> get_process_info c (owner_pid h) \<noteq> None"
    by (simp add: owner_accessible_def h)
  show ?case
    apply (rule exI [of _ m'], rule exI [of _ "E1 @ E2"])
    using h hi E1 r acc
    by (auto simp: handle_new_hook_frame event_ids_append)
qed

lemma handle_removed_hook_ok:
  assumes "map_of (known_hooks m) i = Some h"
  shows "\<exists>m' e. handle_removed_hook c i m = Inr m'
           \<and> events m' = events m @ [e]
           \<and> known_hooks m' = known_hooks m
           \<and> on_event_callbacks m' = on_event_callbacks m
           \<and> event_type e = ''hook_removed'' \<and> hook_info e = Some h"
  using assms by (simp add: handle_removed_hook_def Let_def trigger_frame)

lemma well_keyed_lookup:
  assumes "well_keyed m" and "i \<in> fst ` set (known_hooks m)"
  shows "\<exists>h. map_of (known_hooks m) i = Some h \<and> hook_id h = i"
proof -
  from assms(2) obtain h where "(i, h) \<in> set (known_hooks m)" by auto
  moreover from assms(1) have "distinct (map fst (known_hooks m))"
    and "\<forall>kh \<in> set (known_hooks m). hook_id (snd kh) = fst kh"
    by (simp_all add: well_keyed_def list_all_iff)
  ultimately show ?thesis by (auto intro: map_of_is_SomeI)
qed

lemma removed_loop:
  assumes "set ids \<subseteq> fst ` set (known_hooks m)" and "well_keyed m"
  shows "\<exists>m' E. removed_hooks_loop c ids m = Inr m'
           \<and> events m' = events m @ E
           \<and> known_hooks m' = known_hooks m
           \<and> on_event_callbacks m' = on_event_callbacks m
           \<and> (\<forall>e \<in> set E. event_type e = ''hook_removed'')
           \<and> event_ids ''hook_removed'' E = ids"
  using assms
proof (induction ids arbitrary: m)
  case Nil
  then show ?case by (simp add: event_ids_def)
next
  case (Cons i ids)
  from Cons.prems obtain h where h: "map_of (known_hooks m) i = Some h" "hook_id h = i"
    using well_keyed_lookup [of m i] by auto
  from handle_removed_hook_ok [OF h(1), of c]
  obtain m1 e where m1: "handle_removed_hook c i m = Inr m1"
    "events m1 = events m @ [e]" "known_hooks m1 = known_hooks m"
    "on_event_callbacks m1 = on_event_callbacks m"
    "event_type e = ''hook_removed''" "hook_info e = Some h"
    by blast
  have "set ids \<subseteq> fst ` set (known_hooks m1)" and "well_keyed m1"
    using Cons.prems m1(3) by (simp_all add: well_keyed_def)
  from Cons.IH [OF this]
  obtain m' E where r: "removed_hooks_loop c ids m1 = Inr m'"
    "events m' = events m1 @ E" "known_hooks m' = known_hooks m1"
    "on_event_callbacks m' = on_event_callbacks m1"
    "\<forall>e \<in> set E. event_type e = ''hook_removed''"
    "event_ids ''hook_removed'' E = ids"
    by blast
  show ?case
    apply (rule exI [of _ m'], rule exI [of _ "e # E"])
    using m1 r h(2) by (simp add: event_ids_def)
qed

lemma check_process_changes_events:
  "\<exists>E. events (check_process_changes c h m) = events m @ E
       \<and> (\<forall>e \<in> set E. event_type e = ''process_changed'')
       \<and> known_hooks (check_process_changes c h m) = known_hooks m
       \<and> on_event_callbacks (check_process_changes c h m) = on_event_callbacks m
       \<and> world (check_process_changes c h m) = world m"
  by (auto simp: check_process_changes_def Let_def alert_frame split: option.split prod.split)

lemma existing_loop:
  "\<exists>E. events (existing_hooks_loop c hs m) = events m @ E
       \<and> (\<forall>e \<in> set E. event_type e = ''process_changed'')
       \<and> known_hooks (existing_hooks_loop c hs m) = known_hooks m
       \<and> on_event_callbacks (existing_hooks_loop c hs m) = on_event_callbacks m
       \<and> world (existing_hooks_loop c hs m) = world m"
proof (induction hs arbitrary: m)
  case Nil
  then show ?case by simp
next
  case (Cons h hs)
  let ?m1 = "if List.member (map fst (known_hooks m)) (hook_id h)
             then check_process_changes c h m else m"
  obtain E1 where E1: "events ?m1 = events m @ E1"
    "\<forall>e \<in> set E1. event_type e = ''process_changed''"
    "known_hooks ?m1 = known_hooks m" "on_event_callbacks ?m1 = on_event_callbacks m"
    "world ?m1 = world m"
    using check_process_changes_events [of c h m] by (cases "List.member (map fst (known_hooks m)) (hook_id h)") auto
  from Cons.IH [of ?m1] obtain E2 where E2:
    "events (existing_hooks_loop c hs ?m1) = events ?m1 @ E2"
    "\<forall>e \<in> set E2. event_type e = ''process_changed''"
    "known_hooks (existing_hooks_loop c hs ?m1) = known_hooks ?m1"
    "on_event_callbacks (existing_hooks_loop c hs ?m1) = on_event_callbacks ?m1"
    "world (existing_hooks_loop c hs ?m1) = world ?m1"
    by blast
  show ?case
    apply (rule exI [of _ "E1 @ E2"])
    using E1 E2 by auto
qed

lemma dict_store_keys: "fst ` set (dict_store k v d) = insert k (fst ` set d)"
  by (force simp: dict_store_def split: if_splits)

lemma dict_store_map_fst:
  "map fst (dict_store k v d) = (if k \<in> set (map fst d) then map fst d else map fst d @ [k])"
  by (induction d) (auto simp: dict_store_def)

lemma dict_store_keyed:
  assumes "\<forall>kh \<in> set d. hook_id (snd kh) = fst kh" and "hook_id v = k"
  shows "\<forall>kh \<in> set (dict_store k v d). hook_id (snd kh) = fst kh"
  using assms by (auto simp: dict_store_def split: if_splits)

lemma hooks_fold:
  assumes "distinct (map fst d)" and "\<forall>kh \<in> set d. hook_id (snd kh) = fst kh"
  shows "distinct (map fst (fold (\<lambda>hook d. dict_store (hook_id hook) hook d) hs d))
         \<and> (\<forall>kh \<in> set (fold (\<lambda>hook d. dict_store (hook_id hook) hook d) hs d).
               hook_id (snd kh) = fst kh)
         \<and> fst ` set (fold (\<lambda>hook d. dict_store (hook_id hook) hook d) hs d)
             = hook_id ` set hs \<union> fst ` set d"
  using assms
proof (induction hs arbitrary: d)
  case Nil
  then show ?case by simp
next
  case (Cons h hs)
  have d1: "distinct (map fst (dict_store (hook_id h) h d))"
    using Cons.prems(1) by (simp add: dict_store_map_fst)
  have k1: "\<forall>kh \<in> set (dict_store (hook_id h) h d). hook_id (snd kh) = fst kh"
    using dict_store_keyed [OF Cons.prems(2)] by simp
  from Cons.IH [OF d1 k1] show ?case
    by (simp add: dict_store_keys)
qed

lemma hooks_by_id_ok:
  "distinct (map fst (hooks_by_id hs))
   \<and> list_all (\<lambda>kh. hook_id (snd kh) = fst kh) (hooks_by_id hs)
   \<and> fst ` set (hooks_by_id hs) = hook_id ` set hs"
  using hooks_fold [of "[]" hs] by (simp add: hooks_by_id_def list_all_iff)

lemma scan_structure:
  assumes io: "iteration_order (iter_ids c)" and wk: "well_keyed m"
  shows "\<exists>A R P. events (perform_scan c m) = events m @ A @ R @ P
           \<and> (\<forall>e \<in> set A. event_type e = ''hook_added'')
           \<and> (\<forall>e \<in> set R. event_type e = ''hook_removed'')
           \<and> (\<forall>e \<in> set P. event_type e = ''process_changed'')
           \<and> set (event_ids ''hook_added'' A)
               = {i \<in> hook_id ` set (detect_hooks c) - fst ` set (known_hooks m).
                    owner_accessible c i}
           \<and> set (event_ids ''hook_removed'' R)
               = fst ` set (known_hooks m) - hook_id ` set (detect_hooks c)
           \<and> known_hooks (perform_scan c m) = hooks_by_id (detect_hooks c)
           \<and> on_event_callbacks (perform_scan c m) = on_event_callbacks m"
proof -
  let ?cur = "remdups (map hook_id (detect_hooks c))"
  let ?known = "map fst (known_hooks m)"
  let ?new = "iter_ids c (filter (\<lambda>i. \<not> List.member ?known i) ?cur)"
  let ?rem = "iter_ids c (filter (\<lambda>i. \<not> List.member ?cur i) ?known)"
  from io have it: "set (iter_ids c xs) = set xs" for xs
    by (simp add: iteration_order_def)
  have new_set: "set ?new = hook_id ` set (detect_hooks c) - fst ` set (known_hooks m)"
    by (auto simp: it)
  have rem_set: "set ?rem = fst ` set (known_hooks m) - hook_id ` set (detect_hooks c)"
    by (auto simp: it)
  from new_set have "set ?new \<subseteq> hook_id ` set (detect_hooks c)" by blast
  from new_loop [OF this, of m]
  obtain m1 A where m1: "new_hooks_loop c ?new m = Inr m1"
    "events m1 = events m @ A" "known_hooks m1 = known_hooks m"
    "on_event_callbacks m1 = on_event_callbacks m"
    "\<forall>e \<in> set A. event_type e = ''hook_added''"
    "event_ids ''hook_added'' A = filter (owner_accessible c) ?new"
    by blast
  have "set ?rem \<subseteq> fst ` set (known_hooks m1)" and "well_keyed m1"
    using rem_set wk m1(3) by (auto simp: well_keyed_def)
  from removed_loop [OF this, of c]
  obtain m2 R where m2: "removed_hooks_loop c ?rem m1 = Inr m2"
    "events m2 = events m1 @ R" "known_hooks m2 = known_hooks m1"
    "on_event_callbacks m2 = on_event_callbacks m1"
    "\<forall>e \<in> set R. event_type e = ''hook_removed''"
    "event_ids ''hook_removed'' R = ?rem"
    by blast
  from existing_loop [of c "detect_hooks c" m2]
  obtain P where P: "events (existing_hooks_loop c (detect_hooks c) m2) = events m2 @ P"
    "\<forall>e \<in> set P. event_type e = ''process_changed''"
    "on_event_callbacks (existing_hooks_loop c (detect_hooks c) m2) = on_event_callbacks m2"
    by blast
  have ps: "perform_scan c m
    = (existing_hooks_loop c (detect_hooks c) m2)\<lparr>known_hooks := hooks_by_id (detect_hooks c)\<rparr>"
    using m1(1) m2(1) by (simp add: perform_scan_def Let_def m1(3))
  have a: "set (event_ids ''hook_added'' A)
             = {i \<in> hook_id ` set (detect_hooks c) - fst ` set (known_hooks m).
                  owner_accessible c i}"
    using new_set by (auto simp: m1(6))
  show ?thesis
    apply (rule exI [of _ A], rule exI [of _ R], rule exI [of _ P])
    using ps m1 m2 P a rem_set by simp
qed

lemma scan_events_structure:
  assumes "iteration_order (iter_ids c)" and "well_keyed m"
  shows "\<exists>A R P. scan_shape c m A R P"
  using scan_structure [OF assms]
  apply (elim exE conjE)
  subgoal for A R P
    apply (rule exI [of _ A], rule exI [of _ R], rule exI [of _ P])
    by (simp add: scan_shape_def scan_events_def list_all_iff)
  done

lemma scan_known:
  assumes "iteration_order (iter_ids c)" and "well_keyed m"
  shows "known_hooks (perform_scan c m) = hooks_by_id (detect_hooks c)"
  using scan_structure [OF assms] by (elim exE conjE)


text \<open>
  Claim C6, amended. In one monitor cycle (from a state in which \<open>known_hooks\<close> holds
  every hook under its own id), \<open>hook_added\<close> events are emitted for exactly the ids
  in (current ids minus known ids) whose owner's process information can be retrieved;
  \<open>hook_removed\<close> events are emitted for exactly the ids in (known ids minus current
  ids); and after the cycle the key set of \<open>known_hooks\<close> is the set of current ids,
  each hook again under its own id.
\<close>

theorem monitor_diff:
  assumes "iteration_order (iter_ids c)" and "well_keyed m"
  shows "set (event_ids ''hook_added'' (scan_events c m))
           = {i \<in> hook_id ` set (detect_hooks c) - fst ` set (known_hooks m).
                owner_accessible c i}
       \<and> set (event_ids ''hook_removed'' (scan_events c m))
           = fst ` set (known_hooks m) - hook_id ` set (detect_hooks c)
       \<and> fst ` set (known_hooks (perform_scan c m)) = hook_id ` set (detect_hooks c)
       \<and> well_keyed (perform_scan c m)"
proof -
  from scan_events_structure [OF assms]
  obtain A R P where sh: "scan_shape c m A R P" by blast
  then have s: "scan_events c m = A @ R @ P"
    and tA: "\<forall>e \<in> set A. event_type e = ''hook_added''"
    and tR: "\<forall>e \<in> set R. event_type e = ''hook_removed''"
    and tP: "\<forall>e \<in> set P. event_type e = ''process_changed''"
    and iA: "set (event_ids ''hook_added'' A)
       = {i \<in> hook_id ` set (detect_hooks c) - fst ` set (known_hooks m). owner_accessible c i}"
    and iR: "set (event_ids ''hook_removed'' R)
       = fst ` set (known_hooks m) - hook_id ` set (detect_hooks c)"
    by (simp_all add: scan_shape_def list_all_iff)
  have "event_ids ''hook_added'' R = []"
    by (rule event_ids_other [OF tR]) simp
  moreover have "event_ids ''hook_added'' P = []"
    by (rule event_ids_other [OF tP]) simp
  moreover have "event_ids ''hook_removed'' A = []"
    by (rule event_ids_other [OF tA]) simp
  moreover have "event_ids ''hook_removed'' P = []"
    by (rule event_ids_other [OF tP]) simp
  ultimately have ids: "event_ids ''hook_added'' (scan_events c m) = event_ids ''hook_added'' A"
    "event_ids ''hook_removed'' (scan_events c m) = event_ids ''hook_removed'' R"
    by (simp_all add: s event_ids_append)
  have kh: "known_hooks (perform_scan c m) = hooks_by_id (detect_hooks c)"
    by (rule scan_known [OF assms])
  have "well_keyed (perform_scan c m)"
    using hooks_by_id_ok [of "detect_hooks c"] by (simp add: well_keyed_def kh)
  moreover have "fst ` set (known_hooks (perform_scan c m)) = hook_id ` set (detect_hooks c)"
    using hooks_by_id_ok [of "detect_hooks c"] by (simp add: kh)
  ultimately show ?thesis
    by (simp only: ids iA iR simp_thms)
qed


lemma new_monitor_well_keyed: "well_keyed (new_monitor sens w)"
  by (simp add: well_keyed_def new_monitor_def)


text \<open>
  On the two paths that do invoke the callbacks, every registered callback is called with
  the event, in the order of registration, whether or not an earlier one has raised.
\<close>

lemma handle_new_hook_world:
  assumes "get_process_info c (owner_pid h) = Some p"
  shows "world (handle_new_hook c h m)
           = foldl (\<lambda>w cb. outcome_world (cb (last (events (handle_new_hook c h m))) w))
               (world m) (on_event_callbacks m)"
  using assms
  by (simp add: handle_new_hook_def Let_def trigger_world trigger_frame alert_frame
        split: prod.split)

lemma handle_removed_hook_world:
  assumes "handle_removed_hook c i m = Inr m'"
  shows "world m' = foldl (\<lambda>w cb. outcome_world (cb (last (events m')) w))
                      (world m) (on_event_callbacks m)"
  using assms
  by (auto simp: handle_removed_hook_def Let_def trigger_world trigger_frame
        split: option.splits)


text \<open>
  Claim C6, as stated, fails: a new hook whose owner has exited before
  \<open>get_process_info\<close> is asked is in (current ids minus known ids), but
  \<open>_handle_new_hook\<close> prints a warning and returns, so no \<open>hook_added\<close> event is
  emitted for it.
\<close>

theorem monitor_diff_counterexample:
  "map hook_id (detect_hooks cycle_gone) = [7]
   \<and> map fst (known_hooks watched_monitor) = []
   \<and> event_ids ''hook_added'' (scan_events cycle_gone watched_monitor) = []"
  by code_simp

theorem monitor_diff_witness:
  "set (event_ids ''hook_added'' (scan_events cycle_BC (perform_scan cycle_AB watched_monitor)))
     = {3}
   \<and> set (event_ids ''hook_removed''
             (scan_events cycle_BC (perform_scan cycle_AB watched_monitor))) = {1}
   \<and> fst ` set (known_hooks (perform_scan cycle_BC (perform_scan cycle_AB watched_monitor)))
       = {2, 3}"
proof -
  have io: "iteration_order (iter_ids cycle_BC)"
    by (simp add: iteration_order_def cycle_BC_def cycle_of_def)
  have wk: "well_keyed (perform_scan cycle_AB watched_monitor)"
    by code_simp
  have cur: "map hook_id (detect_hooks cycle_BC) = [2, 3]"
    by code_simp
  have kn: "map fst (known_hooks (perform_scan cycle_AB watched_monitor)) = [1, 2]"
    by code_simp
  have acc: "owner_accessible cycle_BC 3"
    by code_simp
  have c: "hook_id ` set (detect_hooks cycle_BC) = {2, 3}"
    using arg_cong [OF cur, of set] by simp
  have k: "fst ` set (known_hooks (perform_scan cycle_AB watched_monitor)) = {1, 2}"
    using arg_cong [OF kn, of set] by simp
  have "{i \<in> {2, 3} - {1, 2}. owner_accessible cycle_BC i} = {3::int}"
    using acc by auto
  moreover have "{1, 2} - {2, 3} = {1::int}"
    by auto
  ultimately show ?thesis
    using monitor_diff [OF io wk] by (simp add: c k)
qed


text \<open>
  Claim C9 against the code: in a cycle in which the executable path of the owners of
  two known hooks has changed, two \<open>process_changed\<close> events are appended to the event
  log, and the state of the two registered subscribers is what it was before the cycle:
  \<open>_check_process_changes\<close> invokes no callback.
\<close>

theorem process_changed_not_delivered:
  "map event_type
     (scan_events cycle_BC_moved (perform_scan cycle_BC (perform_scan cycle_AB watched_monitor)))
     = [''process_changed'', ''process_changed'']
   \<and> length (on_event_callbacks (perform_scan cycle_BC (perform_scan cycle_AB watched_monitor)))
       = 2
   \<and> world (perform_scan cycle_BC_moved
              (perform_scan cycle_BC (perform_scan cycle_AB watched_monitor)))
       = world (perform_scan cycle_BC (perform_scan cycle_AB watched_monitor))"
  by code_simp

lemma subscribers_isolated_example:
  "world (perform_scan cycle_AB watched_monitor)
     = [(''hook_added'', Some 1), (''hook_added'', Some 2)]
   \<and> filter (\<lambda>u. u = print_error ''Callback error: boom'')
       (ui (perform_scan cycle_AB watched_monitor))
       = [print_error ''Callback error: boom'', print_error ''Callback error: boom'']
   \<and> map fst (known_hooks (perform_scan cycle_AB watched_monitor)) = [1, 2]"
  by code_simp


section \<open>The monitor: the order of delivery\<close>

lemma windows_numbered: "numbered (windows_detect_hooks pids gpi t)"
  by (simp add: numbered_def windows_ids)

lemma mock_numbered: "numbered (mock_detect_hooks t)"
  by (simp add: numbered_def mock_detect_hooks_def upt_rec)












lemma new_monitor_numbered:
  "numbered [] \<and> known_hooks (new_monitor sens w) = hooks_by_id []
   \<and> known_hooks (add_event_callback cb m) = known_hooks m"
  by (simp add: numbered_def new_monitor_def hooks_by_id_def add_event_callback_def)



text \<open>
  Two more cycles with the ids that the enumerators assign. The owner of a first hook,
  numbered 1, exits before the monitor asks for its process information: no
  \<open>hook_added\<close> event is emitted. The owners of the known hooks 1 and 2 change their
  executable path: two \<open>process_changed\<close> events are logged and no subscriber is
  called.
\<close>

lemma first_id_race_example:
  "map hook_id (detect_hooks cycle_exited) = [1]
   \<and> map fst (known_hooks watched_monitor) = []
   \<and> event_ids ''hook_added'' (scan_events cycle_exited watched_monitor) = []"
  by code_simp

lemma process_changed_first_ids_example:
  "map hook_id (detect_hooks cycle_AB_moved) = [1, 2]
   \<and> map event_type (scan_events cycle_AB_moved (perform_scan cycle_AB watched_monitor))
       = [''process_changed'', ''process_changed'']
   \<and> world (perform_scan cycle_AB_moved (perform_scan cycle_AB watched_monitor))
       = world (perform_scan cycle_AB watched_monitor)"
  by code_simp

end
